theory Spec2Isabelle
  imports Complex_Main
begin

section \<open>The duration calculator: \<open>getDurationData\<close>\<close>

text \<open>
  Source: \<^verbatim>\<open>src/public/session-timeout.js\<close>.

  Timestamps are JavaScript numbers that hold either an integral number of
  milliseconds (\<^verbatim>\<open>Date.now()\<close>, a valid \<^verbatim>\<open>Date\<close>'s \<^verbatim>\<open>valueOf()\<close>) or
  \<^verbatim>\<open>NaN\<close> (an invalid \<^verbatim>\<open>Date\<close>). The readings of the clock are integers;
  the cut-off may be \<^verbatim>\<open>NaN\<close>. Integers are unbounded here: the model is
  exact for differences below \<open>2 ^ 53\<close> in magnitude, where the arithmetic of
  doubles on integers is exact and the floor of a quotient by 1000 or by a unit
  length is the integer quotient.
\<close>

datatype jsnum = NaN | Num int

text \<open>The object literal returned by \<^verbatim>\<open>getDurationData\<close>.\<close>

record duration_data =
  dynamicDuration :: string
  diff :: int
  endWord :: string
  invalid :: bool
  isPast :: bool
  prefixTxt :: string
  startWord :: string
  timeout :: int

text \<open>
  The local variables the unit loop assigns: \<^verbatim>\<open>extra\<close>, \<^verbatim>\<open>next\<close> (named
  \<open>nxt\<close> here), \<^verbatim>\<open>humanVal\<close> (a quotient until \<^verbatim>\<open>Math.floor\<close> is applied
  after the loop) and \<^verbatim>\<open>unit\<close>.
\<close>

record loop_vars =
  extra :: int
  nxt :: int
  humanVal :: rat
  unit :: string

definition multipliers :: "int list" where
  "multipliers = [31557600, 2629800, 604800, 86400, 3600, 60]"

definition units :: "string list" where
  "units = [''year'', ''month'', ''week'', ''day'', ''hour'', ''minute'']"

text \<open>\<^verbatim>\<open>Math.floor(a / b)\<close> on integers: the floor of the exact quotient.\<close>

definition floor_quot :: "int \<Rightarrow> int \<Rightarrow> int" where
  "floor_quot a b = \<lfloor>(of_int a :: rat) / of_int b\<rfloor>"

text \<open>The \<^verbatim>\<open>%\<close> operator: the remainder takes the sign of the dividend.\<close>

definition js_rem :: "int \<Rightarrow> int \<Rightarrow> int" where
  "js_rem a b = sgn a * (\<bar>a\<bar> mod \<bar>b\<bar>)"

text \<open>
  The decimal text a template literal gives an integer: the digits are produced from the
  least significant one, each put in front of those already there.
\<close>

definition digit_char :: "nat \<Rightarrow> char" where
  "digit_char n = ''0123456789'' ! n"

fun decimal_acc :: "nat \<Rightarrow> string \<Rightarrow> string" where
  "decimal_acc n acc =
     (if n < 10 then digit_char n # acc
      else decimal_acc (n div 10) (digit_char (n mod 10) # acc))"

definition number_text :: "int \<Rightarrow> string" where
  "number_text i =
     (if 0 \<le> i then decimal_acc (nat i) [] else CHR ''-'' # decimal_acc (nat (- i)) [])"

text \<open>
  The loop \<^verbatim>\<open>for (let a = 0; a < units.length; a += 1)\<close> with its
  \<^verbatim>\<open>break\<close>: \<open>a\<close> is the index, \<open>d\<close> the absolute difference \<^verbatim>\<open>_diff\<close>,
  \<open>past\<close> the flag \<^verbatim>\<open>_isPast\<close>.
\<close>

function find_unit :: "nat \<Rightarrow> int \<Rightarrow> bool \<Rightarrow> loop_vars \<Rightarrow> loop_vars" where
  "find_unit a d past v =
     (if a < length units then
        (if d > multipliers ! a then
           (let e = js_rem d (multipliers ! a) in
            v\<lparr>extra := e,
              nxt := (if e > 0 \<and> past = False then e else multipliers ! a),
              humanVal := of_int d / of_int (multipliers ! a),
              unit := units ! a\<rparr>)
         else find_unit (a + 1) d past v)
      else v)"
  by pat_completeness auto
termination
  by (relation "measure (\<lambda>(a, d, past, v). length units - a)") auto

declare find_unit.simps [simp del]

definition getDurationData ::
  "int \<Rightarrow> jsnum \<Rightarrow> string \<Rightarrow> string \<Rightarrow> string \<Rightarrow> string \<Rightarrow> duration_data" where
  "getDurationData now whn before_txt after_txt start_txt end_txt =
     (case whn of
        NaN \<Rightarrow>
          \<lparr>dynamicDuration = ''unknown'', diff = 0, endWord = '''', invalid = True,
           isPast = False, prefixTxt = '''', startWord = before_txt, timeout = 0\<rparr>
      | Num w \<Rightarrow>
          (let d0 = floor_quot (w - now) 1000;
               past = (d0 < 0);
               d = (if past = True then d0 * (- 1) else d0);
               endW = (if past = True then '' '' @ end_txt else '''');
               prefix = (if past = True then after_txt else before_txt);
               startW = (if past = True then '''' else '' '' @ start_txt);
               v = find_unit 0 d past
                     \<lparr>extra = 0, nxt = 1, humanVal = of_int d, unit = ''second''\<rparr>;
               hv = \<lfloor>humanVal v\<rfloor>;
               n = (if past = False \<and> d \<noteq> 0 \<and> js_rem (nxt v) 60 = 0 then 1 else nxt v)
           in \<lparr>dynamicDuration =
                 (if d = 0 then ''now''
                  else number_text hv @ '' '' @ unit v @ (if hv \<noteq> 1 then ''s'' else '''')),
               diff = d, endWord = endW, invalid = False, isPast = past,
               prefixTxt = prefix,
               startWord = (if d = 0 then '''' else startW),
               timeout = n * 1000\<rparr>))"

subsection \<open>The specification's wording of the unit and of the reschedule\<close>

text \<open>
  The thresholds in the order the specification lists them, each with its unit; the
  unit is the first whose threshold the difference strictly exceeds, with the value the
  floor of the quotient, and \<open>second\<close> with the difference itself when there is none.
\<close>

definition spec_thresholds :: "(int \<times> string) list" where
  "spec_thresholds =
     [(31557600, ''year''), (2629800, ''month''), (604800, ''week''),
      (86400, ''day''), (3600, ''hour''), (60, ''minute'')]"

definition spec_unit :: "int \<Rightarrow> string \<times> int" where
  "spec_unit d =
     (case List.find (\<lambda>(m, u). m < d) spec_thresholds of
        Some (m, u) \<Rightarrow> (u, d div m)
      | None \<Rightarrow> (''second'', d))"


section \<open>The component: \<open>SessionTimeout\<close>\<close>

text \<open>
  The class \<^verbatim>\<open>SessionTimeout\<close> is modelled by explicit state passing. Every method
  takes the component and the readings of the clock it makes (\<^verbatim>\<open>Date.now()\<close>,
  \<^verbatim>\<open>new Date()\<close>), in the order it makes them, and returns the component as the
  method leaves it. What the methods do to their environment is part of the state: the
  events given to \<^verbatim>\<open>dispatchEvent\<close>, the warnings and errors written to the
  console, the pending timers and the listeners registered on \<^verbatim>\<open>window\<close>. The
  calls of \<^verbatim>\<open>console.log\<close> and \<^verbatim>\<open>console.group\<close> are not modelled.
\<close>

datatype error = Error string | TypeError

datatype log_entry = Warn string | ErrorLog string

text \<open>A function given as keepalive callback: what matters is whether calling it raises.\<close>

datatype callback = Callback (raises: bool)

text \<open>The JavaScript values the methods test with \<^verbatim>\<open>typeof\<close> or call.\<close>

datatype jsval = JUndefined | JNull | JString string | JNumber jsnum | JFunction callback

text \<open>The methods of the class that the code hands to \<^verbatim>\<open>addEventListener\<close>.\<close>

datatype listener = L_setSessionEnd | L_resetEnd | L_updateKeepAlive

text \<open>
  The fields of the instance. A property \<^verbatim>\<open>this.x\<close> is the field \<open>this_x\<close>, a
  property \<^verbatim>\<open>this._x\<close> is the field \<open>priv_x\<close>: \<open>this_end\<close> is the word
  \<^verbatim>\<open>this.end\<close>, while \<open>priv_end\<close> is the time value of the \<^verbatim>\<open>Date\<close> in
  \<^verbatim>\<open>this._end\<close>, \<open>None\<close> when that is \<^verbatim>\<open>null\<close>. The field \<open>this_diff\<close>
  is \<open>None\<close> until \<^verbatim>\<open>updateStrings\<close> first assigns \<^verbatim>\<open>context.diff\<close>.
  The duration and the keepalive are whole numbers here. A timer is a pair of its
  identifier and its delay in milliseconds.
\<close>

record component =
  this_after :: string
  this_before :: string
  this_start :: string
  this_end :: string
  this_isPast :: bool
  this_diff :: "int option"
  priv_duration :: int
  priv_end :: "jsnum option"
  priv_timeout :: "nat option"
  priv_lastInteraction :: int
  priv_lastKeep :: int
  priv_keepalive :: int
  priv_keepaliveCallback :: "callback option"
  msgSpan_innerText :: string
  valueSpan_innerText :: string
  dispatched :: "(string \<times> bool) list"
  console :: "log_entry list"
  timers :: "(nat \<times> int) list"
  timer_count :: nat
  listeners :: "(string \<times> listener) list"
  callback_calls :: nat

text \<open>The instance the constructor leaves, before it is connected.\<close>

definition new_component :: component where
  "new_component =
     \<lparr>this_after = ''expired'', this_before = ''expires'', this_start = ''in'',
      this_end = ''ago'', this_isPast = False, this_diff = None, priv_duration = 0,
      priv_end = None, priv_timeout = None, priv_lastInteraction = 0, priv_lastKeep = 0,
      priv_keepalive = 0, priv_keepaliveCallback = None, msgSpan_innerText = '''',
      valueSpan_innerText = '''', dispatched = [], console = [], timers = [],
      timer_count = 0, listeners = [], callback_calls = 0\<rparr>"

definition watchableEvents :: "string list" where
  "watchableEvents = [''onfocus'', ''onblur'', ''keyup'', ''mousedown'', ''onscroll'']"

definition minKeepalive :: int where
  "minKeepalive = 30"

subsection \<open>The environment\<close>

text \<open>\<^verbatim>\<open>clearTimeout\<close> of \<^verbatim>\<open>null\<close> or of a timer that is gone does nothing.\<close>

definition clearTimeout :: "nat option \<Rightarrow> component \<Rightarrow> component" where
  "clearTimeout h c =
     (case h of
        None \<Rightarrow> c
      | Some i \<Rightarrow> c\<lparr>timers := filter (\<lambda>(j, ms). j \<noteq> i) (timers c)\<rparr>)"

definition setTimeout :: "int \<Rightarrow> component \<Rightarrow> nat \<times> component" where
  "setTimeout ms c =
     (timer_count c,
      c\<lparr>timers := timers c @ [(timer_count c, ms)], timer_count := Suc (timer_count c)\<rparr>)"

text \<open>
  A listener that is \<^verbatim>\<open>undefined\<close> (\<open>None\<close>) is not registered, and neither is
  one that is registered already for the same event; \<^verbatim>\<open>removeEventListener\<close>
  takes a registered listener away.
\<close>

definition addEventListener :: "string \<Rightarrow> listener option \<Rightarrow> component \<Rightarrow> component" where
  "addEventListener ev l c =
     (case l of
        None \<Rightarrow> c
      | Some f \<Rightarrow>
          (if (ev, f) \<in> set (listeners c) then c
           else c\<lparr>listeners := listeners c @ [(ev, f)]\<rparr>))"

definition removeEventListener :: "string \<Rightarrow> listener option \<Rightarrow> component \<Rightarrow> component" where
  "removeEventListener ev l c =
     (case l of
        None \<Rightarrow> c
      | Some f \<Rightarrow> c\<lparr>listeners := removeAll (ev, f) (listeners c)\<rparr>)"

text \<open>\<^verbatim>\<open>new Date(v)\<close>: a time value beyond the range of \<^verbatim>\<open>Date\<close> is \<^verbatim>\<open>NaN\<close>.\<close>

definition new_Date :: "int \<Rightarrow> jsnum" where
  "new_Date v = (if \<bar>v\<bar> \<le> 8640000000000000 then Num v else NaN)"

text \<open>\<^verbatim>\<open>String.prototype.trim\<close> on the white space of the first 256 code points.\<close>

definition is_space :: "char \<Rightarrow> bool" where
  "is_space ch = (of_char ch \<in> {9, 10, 11, 12, 13, 32, 160 :: nat})"

definition trim :: "string \<Rightarrow> string" where
  "trim s = rev (dropWhile is_space (rev (dropWhile is_space s)))"

subsection \<open>Utility methods\<close>

definition emitEvent :: "string \<Rightarrow> bool \<Rightarrow> component \<Rightarrow> component" where
  "emitEvent event detail c = c\<lparr>dispatched := dispatched c @ [(event, detail)]\<rparr>"

text \<open>
  \<^verbatim>\<open>setEndInner\<close> receives a \<^verbatim>\<open>Date\<close> from both of its callers, here its time
  value. Its first test, \<^verbatim>\<open>newEnd === 'invalid date'\<close>, compares that object with
  a string and is false for every \<^verbatim>\<open>Date\<close>, so the model starts at the second.
  A comparison with \<^verbatim>\<open>NaN\<close> is false. \<open>now\<close> is the reading of \<^verbatim>\<open>Date.now()\<close>.
\<close>

definition setEndInner :: "jsnum \<Rightarrow> int \<Rightarrow> component \<Rightarrow> error + component" where
  "setEndInner newEnd now c =
     (if (case newEnd of NaN \<Rightarrow> False | Num t \<Rightarrow> t < now) then
        Inr (c\<lparr>console := console c
               @ [Warn ''<session-timeout> expects new end date-time to be later than now'']\<rparr>)
      else Inr (c\<lparr>priv_end := Some newEnd\<rparr>))"

text \<open>
  \<^verbatim>\<open>setEnd\<close>: \<open>created\<close> is the time \<^verbatim>\<open>new Date()\<close> reads, \<open>now\<close> the time
  \<^verbatim>\<open>Date.now()\<close> reads in \<^verbatim>\<open>setEndInner\<close> after it. The string is tested and
  then not used: the call is \<^verbatim>\<open>this.setEndInner(new Date())\<close>.
\<close>

definition setEnd :: "jsval \<Rightarrow> int \<Rightarrow> int \<Rightarrow> component \<Rightarrow> error + component" where
  "setEnd dateTimeStr created now c =
     (if (case dateTimeStr of JString s \<Rightarrow> trim s = '''' | _ \<Rightarrow> True) then
        Inl (Error ''SessionTimout.setEnd() expected only parameter to be a non-empty string'')
      else setEndInner (Num created) now c)"

text \<open>
  The event \<^verbatim>\<open>setSessionEnd\<close> receives, whose target is an object or undefined:
  \<open>ev_target_value\<close> is \<open>None\<close> when \<^verbatim>\<open>event.target\<close> is undefined and
  \<^verbatim>\<open>event.target.value\<close> otherwise.
\<close>

record js_event =
  ev_target_value :: "jsval option"
  ev_detail :: jsval

definition setSessionEnd :: "js_event \<Rightarrow> int \<Rightarrow> int \<Rightarrow> component \<Rightarrow> error + component" where
  "setSessionEnd event created now c =
     (let whn = (case ev_target_value event of
                   Some (JString s) \<Rightarrow> JString s
                 | _ \<Rightarrow> ev_detail event)
      in case whn of
           JString s \<Rightarrow> setEnd whn created now c
         | _ \<Rightarrow> Inl (Error (''<session-timeout> expected '' @ [CHR 0x22] @ ''setsessionend''
                  @ [CHR 0x22] @ '' event to contain ''
                  @ ''either a `event.details` property or an `event.target.value`'')))"

definition resetEnd :: "int \<Rightarrow> int \<Rightarrow> component \<Rightarrow> error + component" where
  "resetEnd created now c = setEndInner (new_Date (created + priv_duration c)) now c"

text \<open>
  The function \<^verbatim>\<open>updateStrings(context)\<close> returns, with \<^verbatim>\<open>context\<close> the
  component itself, as \<^verbatim>\<open>connectedCallback\<close> calls it. \<^verbatim>\<open>context.timeout\<close> is
  no property of the component, so \<^verbatim>\<open>context.timeout !== null\<close> holds and the timer
  in \<^verbatim>\<open>context._timeout\<close> is always cleared. Reading \<^verbatim>\<open>this._end.valueOf()\<close>
  when \<^verbatim>\<open>this._end\<close> is \<^verbatim>\<open>null\<close> raises a \<^verbatim>\<open>TypeError\<close>, which leaves the
  component with the timer cleared.
\<close>

definition updateStrings :: "int \<Rightarrow> component \<Rightarrow> (error \<times> component) + component" where
  "updateStrings now c =
     (let c1 = clearTimeout (priv_timeout c) c in
      case priv_end c1 of
        None \<Rightarrow> Inl (TypeError, c1)
      | Some whn \<Rightarrow>
          (let tmp = getDurationData now whn
                       (this_before c1) (this_after c1) (this_start c1) (this_end c1);
               c2 = (if this_isPast c1 = False \<and> isPast tmp = True
                     then emitEvent ''sessionexpired'' True c1 else c1);
               c3 = c2\<lparr>this_isPast := isPast tmp, this_diff := Some (diff tmp),
                      msgSpan_innerText := ''Session '' @ prefixTxt tmp @ startWord tmp @ '' '',
                      valueSpan_innerText := dynamicDuration tmp @ endWord tmp\<rparr>
           in if invalid tmp = False \<and> diff tmp < 28800 then
                (case setTimeout (timeout tmp) c3 of
                   (h, c4) \<Rightarrow> Inr (c4\<lparr>priv_timeout := Some h\<rparr>))
              else Inr c3))"

subsection \<open>The keepalive\<close>

text \<open>
  The class declares \<^verbatim>\<open>set keepaliveCallback\<close> and no getter, so reading
  \<^verbatim>\<open>this.keepaliveCallback\<close> gives \<^verbatim>\<open>undefined\<close> whatever the setter stored in
  \<^verbatim>\<open>this._keepaliveCallback\<close>.
\<close>

definition js_typeof :: "jsval \<Rightarrow> string" where
  "js_typeof v =
     (case v of
        JUndefined \<Rightarrow> ''undefined''
      | JNull \<Rightarrow> ''object''
      | JString s \<Rightarrow> ''string''
      | JNumber n \<Rightarrow> ''number''
      | JFunction f \<Rightarrow> ''function'')"

definition set_keepaliveCallback :: "jsval \<Rightarrow> component \<Rightarrow> component" where
  "set_keepaliveCallback input c =
     (case input of
        JNull \<Rightarrow> c
      | JFunction f \<Rightarrow> c\<lparr>priv_keepaliveCallback := Some f\<rparr>
      | _ \<Rightarrow> c\<lparr>console := console c
               @ [ErrorLog (''<session-timout> attribute `keepaliveCallback` must be a ''
                    @ ''function that expects no arguments. found ''
                    @ [CHR 0x22] @ js_typeof input @ [CHR 0x22])]\<rparr>)"

definition get_keepaliveCallback :: "component \<Rightarrow> jsval" where
  "get_keepaliveCallback c = JUndefined"

text \<open>
  Calling a value: a function is invoked, which is counted, and raises or returns;
  calling anything else raises a \<^verbatim>\<open>TypeError\<close>. Of the two arguments of
  \<^verbatim>\<open>console.error\<close> in the \<^verbatim>\<open>catch\<close> block of \<^verbatim>\<open>updateKeepAlive\<close>
  the log keeps the first, the fixed text.
\<close>

definition call_value :: "jsval \<Rightarrow> component \<Rightarrow> error option \<times> component" where
  "call_value v c =
     (case v of
        JFunction f \<Rightarrow>
          (if raises f then Some (Error ''keepaliveCallback'') else None,
           c\<lparr>callback_calls := Suc (callback_calls c)\<rparr>)
      | _ \<Rightarrow> (Some TypeError, c))"

definition updateKeepAlive :: "int \<Rightarrow> component \<Rightarrow> component" where
  "updateKeepAlive now c =
     (let c1 = c\<lparr>priv_lastInteraction := now\<rparr> in
      if priv_lastInteraction c1 - priv_lastKeep c1 > priv_keepalive c1 * 1000 then
        (let c2 = c1\<lparr>priv_lastKeep := priv_lastInteraction c1\<rparr> in
         if priv_keepaliveCallback c2 = None then emitEvent ''keepalive'' True c2
         else
           (case call_value (get_keepaliveCallback c2) c2 of
              (None, c3) \<Rightarrow> c3
            | (Some e, c3) \<Rightarrow>
                emitEvent ''keepalive'' True
                  (c3\<lparr>console := console c3
                        @ [ErrorLog ''<session-timeout> caught error when calling keepaliveCallback():''],
                      priv_keepaliveCallback := None\<rparr>)))
      else c1)"

text \<open>
  \<^verbatim>\<open>setListeners\<close>: the two reset listeners are registered; when the keepalive is
  above \<^verbatim>\<open>minKeepalive\<close>, the loop over \<^verbatim>\<open>watchableEvents\<close> evaluates
  \<^verbatim>\<open>this.updateKeepAlive()\<close>, a call, and hands its result, \<^verbatim>\<open>undefined\<close>, to
  \<^verbatim>\<open>addEventListener\<close>. \<open>clk i\<close> is the clock at the \<open>i\<close>-th call.
\<close>

fun keepaliveLoop :: "(nat \<Rightarrow> int) \<Rightarrow> nat \<Rightarrow> string list \<Rightarrow> component \<Rightarrow> component" where
  "keepaliveLoop clk i [] c = c"
| "keepaliveLoop clk i (event # rest) c =
     keepaliveLoop clk (Suc i) rest (addEventListener event None (updateKeepAlive (clk i) c))"

definition setListeners :: "(nat \<Rightarrow> int) \<Rightarrow> component \<Rightarrow> component" where
  "setListeners clk c =
     (let c1 = addEventListener ''setsessionend'' (Some L_setSessionEnd) c;
          c2 = addEventListener ''resetsession'' (Some L_resetEnd) c1
      in if priv_keepalive c2 > minKeepalive then keepaliveLoop clk 0 watchableEvents c2
         else c2)"

subsection \<open>Attributes, accessors and the custom element callbacks\<close>

text \<open>
  \<^verbatim>\<open>parseInt(s, 10)\<close>: white space is skipped, a sign is read, and the decimal digits
  that follow are the number; without a digit the result is \<^verbatim>\<open>NaN\<close>.
\<close>

definition is_digit :: "char \<Rightarrow> bool" where
  "is_digit ch = (48 \<le> (of_char ch :: nat) \<and> (of_char ch :: nat) \<le> 57)"

definition digit_value :: "char \<Rightarrow> int" where
  "digit_value ch = int (of_char ch) - 48"

definition parseInt10 :: "string \<Rightarrow> jsnum" where
  "parseInt10 s =
     (let t = dropWhile is_space s;
          negative = (t \<noteq> [] \<and> hd t = CHR ''-'');
          u = (if t \<noteq> [] \<and> (hd t = CHR ''-'' \<or> hd t = CHR ''+'') then tl t else t);
          ds = takeWhile is_digit u
      in if ds = [] then NaN
         else Num ((if negative then - 1 else 1)
                   * foldl (\<lambda>a ch. 10 * a + digit_value ch) 0 ds))"

text \<open>
  \<^verbatim>\<open>sanitiseDuation\<close>. The numbers of the model are whole, so \<^verbatim>\<open>_tmp % 1\<close> is
  0 and \<^verbatim>\<open>output\<close> is \<^verbatim>\<open>_tmp\<close>; a value below 180000 is multiplied by 1000.
\<close>

definition sanitiseDuation :: "jsval \<Rightarrow> error + int" where
  "sanitiseDuation duration =
     (let tmp = (case duration of JString s \<Rightarrow> JNumber (parseInt10 s) | v \<Rightarrow> v) in
      case tmp of
        JNumber (Num n) \<Rightarrow> Inr (if n < 180000 then n * 1000 else n)
      | _ \<Rightarrow> Inl (Error (''<session-timeout> expects required '' @ [CHR 0x22] @ ''duration''
                @ [CHR 0x22] @ '' attribute to be the number of milliseconds a session will last'')))"

definition error_message :: "error \<Rightarrow> string" where
  "error_message e = (case e of Error m \<Rightarrow> m | TypeError \<Rightarrow> ''TypeError'')"

text \<open>\<^verbatim>\<open>String.prototype.includes\<close>.\<close>

fun js_includes :: "string \<Rightarrow> string \<Rightarrow> bool" where
  "js_includes [] sub = (sub = [])"
| "js_includes (x # xs) sub = (take (length sub) (x # xs) = sub \<or> js_includes xs sub)"

text \<open>
  The setters. An entry of the console for a rejected keepalive keeps the fixed text of
  the message, without the rendering of the value that follows it in the source.
\<close>

definition set_duration :: "jsval \<Rightarrow> component \<Rightarrow> component" where
  "set_duration input c =
     (case sanitiseDuation input of
        Inr d \<Rightarrow> c\<lparr>priv_duration := d\<rparr>
      | Inl e \<Rightarrow> c\<lparr>console := console c @ [ErrorLog (error_message e)]\<rparr>)"

definition set_keepalive :: "jsval \<Rightarrow> component \<Rightarrow> component" where
  "set_keepalive input c =
     (let tmp = (case input of JString s \<Rightarrow> JNumber (parseInt10 s) | v \<Rightarrow> v) in
      case tmp of
        JNumber (Num n) \<Rightarrow>
          (if n < 0 then
             c\<lparr>console := console c
                 @ [ErrorLog ''<session-timout> attribute `keepalive` number or numeric string, greater than zero.'']\<rparr>
           else c\<lparr>priv_keepalive := n\<rparr>)
      | _ \<Rightarrow>
          c\<lparr>console := console c
              @ [ErrorLog ''<session-timout> attribute `keepalive` number or numeric string, greater than zero.'']\<rparr>)"

definition set_when :: "jsval \<Rightarrow> int \<Rightarrow> int \<Rightarrow> component \<Rightarrow> component" where
  "set_when input created now c =
     (case setEnd input created now c of
        Inr c' \<Rightarrow> c'
      | Inl e \<Rightarrow>
          (if js_includes (error_message e) ''non-empty'' = False
           then c\<lparr>console := console c @ [ErrorLog (error_message e)]\<rparr>
           else c))"

text \<open>
  \<^verbatim>\<open>clearListeners\<close> mirrors \<^verbatim>\<open>setListeners\<close>: above \<^verbatim>\<open>minKeepalive\<close> its loop
  calls \<^verbatim>\<open>this.updateKeepAlive()\<close> too and removes \<^verbatim>\<open>undefined\<close>.
\<close>

fun clearLoop :: "(nat \<Rightarrow> int) \<Rightarrow> nat \<Rightarrow> string list \<Rightarrow> component \<Rightarrow> component" where
  "clearLoop clk i [] c = c"
| "clearLoop clk i (event # rest) c =
     clearLoop clk (Suc i) rest (removeEventListener event None (updateKeepAlive (clk i) c))"

definition clearListeners :: "(nat \<Rightarrow> int) \<Rightarrow> component \<Rightarrow> component" where
  "clearListeners clk c =
     (let c1 = removeEventListener ''setsessionend'' (Some L_setSessionEnd) c;
          c2 = removeEventListener ''resetsession'' (Some L_resetEnd) c1
      in if priv_keepalive c2 > minKeepalive then clearLoop clk 0 watchableEvents c2
         else c2)"

text \<open>
  The attributes \<^verbatim>\<open>connectedCallback\<close> reads (\<open>None\<close> when \<^verbatim>\<open>hasAttribute\<close> is
  false) and the readings of the clock it makes: two in \<^verbatim>\<open>setEnd\<close> when there is a
  \<^verbatim>\<open>when\<close> attribute, two in \<^verbatim>\<open>resetEnd\<close>, and those of \<^verbatim>\<open>setListeners\<close>.
\<close>

record attributes =
  attr_duration :: "string option"
  attr_when :: "string option"
  attr_keepalive :: "string option"

record connect_clock =
  when_created :: int
  when_now :: int
  reset_created :: int
  reset_now :: int
  listener_clock :: "nat \<Rightarrow> int"

text \<open>
  \<^verbatim>\<open>connectedCallback\<close>. An exception leaves the method with the component as it is
  at that point. The keepalive attribute goes through \<^verbatim>\<open>sanitiseDuation\<close>, as the
  duration does. The class has a setter \<^verbatim>\<open>when\<close> and no getter, so \<^verbatim>\<open>this.when\<close>
  is \<^verbatim>\<open>undefined\<close>, \<^verbatim>\<open>typeof this.when !== 'string'\<close> holds and \<^verbatim>\<open>resetEnd\<close>
  is called. The property \<^verbatim>\<open>_when\<close>, which receives the \<^verbatim>\<open>undefined\<close> that
  \<^verbatim>\<open>setEnd\<close> returns, is read nowhere and is no field of the model.
\<close>

definition connectedCallback ::
  "attributes \<Rightarrow> connect_clock \<Rightarrow> component \<Rightarrow> (error \<times> component) + component" where
  "connectedCallback attrs clk c =
     (case (case attr_duration attrs of
              None \<Rightarrow> Inr c
            | Some s \<Rightarrow>
                (case sanitiseDuation (JString s) of
                   Inl e \<Rightarrow> Inl (e, c)
                 | Inr d \<Rightarrow> Inr (c\<lparr>priv_duration := d\<rparr>))) of
        Inl x \<Rightarrow> Inl x
      | Inr c1 \<Rightarrow>
     (case (case attr_when attrs of
              None \<Rightarrow> Inr c1
            | Some s \<Rightarrow>
                (case setEnd (JString s) (when_created clk) (when_now clk) c1 of
                   Inl e \<Rightarrow> Inl (e, c1)
                 | Inr c' \<Rightarrow> Inr c')) of
        Inl x \<Rightarrow> Inl x
      | Inr c2 \<Rightarrow>
     (case (case attr_keepalive attrs of
              None \<Rightarrow> Inr c2
            | Some s \<Rightarrow>
                (case sanitiseDuation (JString s) of
                   Inl e \<Rightarrow> Inl (e, c2)
                 | Inr k \<Rightarrow> Inr (c2\<lparr>priv_keepalive := k\<rparr>))) of
        Inl x \<Rightarrow> Inl x
      | Inr c3 \<Rightarrow>
     (case resetEnd (reset_created clk) (reset_now clk) c3 of
        Inl e \<Rightarrow> Inl (e, c3)
      | Inr c4 \<Rightarrow>
          (case setTimeout 1000 (setListeners (listener_clock clk) c4) of
             (h, c5) \<Rightarrow> Inr (c5\<lparr>priv_timeout := Some h\<rparr>))))))"

definition disconnectedCallback :: "(nat \<Rightarrow> int) \<Rightarrow> component \<Rightarrow> component" where
  "disconnectedCallback clk c =
     (let c1 = clearListeners clk c in
      if priv_timeout c1 \<noteq> None then clearTimeout (priv_timeout c1) c1 else c1)"

subsection \<open>Runs of the component\<close>

text \<open>
  A user interaction is an event on \<^verbatim>\<open>window\<close>: the listeners registered for its name
  run in the order of their registration. What running a listener does is the parameter
  \<open>invoke\<close>.
\<close>

definition dispatchWindow ::
  "(listener \<Rightarrow> int \<Rightarrow> component \<Rightarrow> component) \<Rightarrow> string \<Rightarrow> int \<Rightarrow> component \<Rightarrow> component" where
  "dispatchWindow invoke ev now c =
     fold (\<lambda>l. invoke l now) (map snd (filter (\<lambda>(n, l). n = ev) (listeners c))) c"

fun interactions ::
  "(listener \<Rightarrow> int \<Rightarrow> component \<Rightarrow> component) \<Rightarrow> (string \<times> int) list \<Rightarrow> component \<Rightarrow> component" where
  "interactions invoke [] c = c"
| "interactions invoke ((ev, now) # rest) c =
     interactions invoke rest (dispatchWindow invoke ev now c)"

text \<open>
  A timer callback that raises ends there; the component stays as the callback left it.
\<close>

definition tick :: "int \<Rightarrow> component \<Rightarrow> component" where
  "tick now c = (case updateStrings now c of Inl (e, c') \<Rightarrow> c' | Inr c' \<Rightarrow> c')"

fun ticks :: "int list \<Rightarrow> component \<Rightarrow> component" where
  "ticks [] c = c"
| "ticks (now # rest) c = ticks rest (tick now c)"

text \<open>
  The operations on a component are the methods, the accessors and the callbacks of the
  class; one that raises leaves the component as it was when the exception left the
  method.
\<close>

datatype operation =
    Tick int
  | Interact int
  | ResetEnd int int
  | SetEnd jsval int int
  | SetSessionEnd js_event int int
  | SetDuration jsval
  | SetKeepalive jsval
  | SetKeepaliveCallback jsval
  | SetWhen jsval int int
  | SetListeners "nat \<Rightarrow> int"
  | ClearListeners "nat \<Rightarrow> int"
  | Connect attributes connect_clock
  | Disconnect "nat \<Rightarrow> int"

fun run_op :: "operation \<Rightarrow> component \<Rightarrow> component" where
  "run_op (Tick now) c = tick now c"
| "run_op (Interact now) c = updateKeepAlive now c"
| "run_op (ResetEnd created now) c =
     (case resetEnd created now c of Inl e \<Rightarrow> c | Inr c' \<Rightarrow> c')"
| "run_op (SetEnd s created now) c =
     (case setEnd s created now c of Inl e \<Rightarrow> c | Inr c' \<Rightarrow> c')"
| "run_op (SetSessionEnd event created now) c =
     (case setSessionEnd event created now c of Inl e \<Rightarrow> c | Inr c' \<Rightarrow> c')"
| "run_op (SetDuration input) c = set_duration input c"
| "run_op (SetKeepalive input) c = set_keepalive input c"
| "run_op (SetKeepaliveCallback input) c = set_keepaliveCallback input c"
| "run_op (SetWhen input created now) c = set_when input created now c"
| "run_op (SetListeners clk) c = setListeners clk c"
| "run_op (ClearListeners clk) c = clearListeners clk c"
| "run_op (Connect attrs clk) c =
     (case connectedCallback attrs clk c of Inl (e, c') \<Rightarrow> c' | Inr c' \<Rightarrow> c')"
| "run_op (Disconnect clk) c = disconnectedCallback clk c"

fun run_ops :: "operation list \<Rightarrow> component \<Rightarrow> component" where
  "run_ops [] c = c"
| "run_ops (x # xs) c = run_ops xs (run_op x c)"

text \<open>The operation that stores a handler: the setter, given a function.\<close>

fun assigns_handler :: "operation \<Rightarrow> bool" where
  "assigns_handler (SetKeepaliveCallback (JFunction f)) = True"
| "assigns_handler x = False"

text \<open>
  The result \<^verbatim>\<open>updateStrings\<close> computes at the clock reading \<open>now\<close> for the target
  \<open>whn\<close>, with the labels of the component.
\<close>

definition result_at :: "component \<Rightarrow> jsnum \<Rightarrow> int \<Rightarrow> duration_data" where
  "result_at c whn now =
     getDurationData now whn (this_before c) (this_after c) (this_start c) (this_end c)"

section \<open>Helper lemmas\<close>

subsection \<open>The duration calculator\<close>

lemma floor_quot_div: "floor_quot a b = a div b"
  by (simp add: floor_quot_def floor_divide_of_int_eq)

text \<open>The loop finds the first pair of the zipped lists whose length the difference exceeds.\<close>

lemma find_unit_find:
  "find_unit a d past v =
     (case List.find (\<lambda>(m, u). m < d) (drop a (zip multipliers units)) of
        None \<Rightarrow> v
      | Some (m, u) \<Rightarrow>
          v\<lparr>extra := js_rem d m,
            nxt := (if js_rem d m > 0 \<and> past = False then js_rem d m else m),
            humanVal := of_int d / of_int m,
            unit := u\<rparr>)"
proof (induction a d past v rule: find_unit.induct)
  case (1 a d past v)
  show ?case
  proof (cases "a < length units")
    case False
    then show ?thesis
      by (simp add: find_unit.simps[of a])
  next
    case True
    then have len: "a < length (zip multipliers units)"
      by (simp add: units_def multipliers_def)
    have dr: "drop a (zip multipliers units) =
        (multipliers ! a, units ! a) # drop (Suc a) (zip multipliers units)"
      using Cons_nth_drop_Suc[OF len, symmetric] len by simp
    show ?thesis
    proof (cases "multipliers ! a < d")
      case True
      with \<open>a < length units\<close> show ?thesis
        by (simp add: find_unit.simps[of a] dr Let_def)
    next
      case False
      with \<open>a < length units\<close> "1.IH" show ?thesis
        by (simp add: find_unit.simps[of a] dr)
    qed
  qed
qed

lemma zip_thresholds: "zip multipliers units = spec_thresholds"
  by (simp add: multipliers_def units_def spec_thresholds_def)

lemma js_rem_nonneg: "0 \<le> a \<Longrightarrow> 0 < b \<Longrightarrow> js_rem a b = a mod b"
  by (cases "a = 0") (simp_all add: js_rem_def)

lemma find_threshold_multiplier:
  "List.find (\<lambda>(m, u). m < d) spec_thresholds = Some (m, u) \<Longrightarrow>
     List.find (\<lambda>m. m < d) multipliers = Some m \<and> 60 \<le> m \<and> m < d"
  by (simp add: spec_thresholds_def multipliers_def split: if_splits)


lemma find_threshold_none:
  "List.find (\<lambda>(m, u). m < d) spec_thresholds = None \<longleftrightarrow> d \<le> 60"
  by (simp add: spec_thresholds_def)

text \<open>The locals after the loop, for a non-negative difference.\<close>

lemma find_unit_hit:
  assumes "List.find (\<lambda>(m, u). m < d) spec_thresholds = Some (m, u)"
  shows "find_unit 0 d past v =
     v\<lparr>extra := d mod m, nxt := (if d mod m > 0 \<and> \<not> past then d mod m else m),
       humanVal := of_int d / of_int m, unit := u\<rparr>"
proof -
  from find_threshold_multiplier[OF assms] have "0 \<le> d" "0 < m" by simp_all
  then have "js_rem d m = d mod m" by (rule js_rem_nonneg)
  with assms show ?thesis
    by (simp add: find_unit_find zip_thresholds)
qed

lemma find_unit_miss:
  assumes "d \<le> 60"
  shows "find_unit 0 d past v = v"
proof -
  from assms have "List.find (\<lambda>(m, u). m < d) spec_thresholds = None"
    by (simp add: find_threshold_none)
  then show ?thesis
    by (simp add: find_unit_find zip_thresholds)
qed

text \<open>The fields of the result for a valid cut-off, in terms of the locals.\<close>

lemma gdd_valid:
  "getDurationData now (Num w) b a s e =
     (let d = \<bar>(w - now) div 1000\<bar>;
          past = ((w - now) div 1000 < 0);
          v = find_unit 0 d past \<lparr>extra = 0, nxt = 1, humanVal = of_int d, unit = ''second''\<rparr>
      in \<lparr>dynamicDuration =
            (if d = 0 then ''now''
             else number_text \<lfloor>humanVal v\<rfloor> @ '' '' @ unit v
                    @ (if \<lfloor>humanVal v\<rfloor> \<noteq> 1 then ''s'' else '''')),
          diff = d,
          endWord = (if past then '' '' @ e else ''''),
          invalid = False, isPast = past,
          prefixTxt = (if past then a else b),
          startWord = (if d = 0 then '''' else if past then '''' else '' '' @ s),
          timeout = (if \<not> past \<and> d \<noteq> 0 \<and> js_rem (nxt v) 60 = 0 then 1 else nxt v) * 1000\<rparr>)"
proof (cases "(w - now) div 1000 < 0")
  case True
  then have "\<bar>(w - now) div 1000\<bar> = (w - now) div 1000 * (- 1)" by simp
  with True show ?thesis
    by (simp add: getDurationData_def floor_quot_div Let_def del: abs_of_neg)
next
  case False
  then have "\<bar>(w - now) div 1000\<bar> = (w - now) div 1000" by simp
  with False show ?thesis
    by (simp add: getDurationData_def floor_quot_div Let_def)
qed

lemma gdd_fields:
  assumes "d = \<bar>(w - now) div 1000\<bar>" and "past = ((w - now) div 1000 < 0)"
    and "v = find_unit 0 d past \<lparr>extra = 0, nxt = 1, humanVal = of_int d, unit = ''second''\<rparr>"
  shows "diff (getDurationData now (Num w) b a s e) = d"
    and "isPast (getDurationData now (Num w) b a s e) = past"
    and "invalid (getDurationData now (Num w) b a s e) = False"
    and "timeout (getDurationData now (Num w) b a s e) =
           (if \<not> past \<and> d \<noteq> 0 \<and> js_rem (nxt v) 60 = 0 then 1 else nxt v) * 1000"
    and "dynamicDuration (getDurationData now (Num w) b a s e) =
           (if d = 0 then ''now''
            else number_text \<lfloor>humanVal v\<rfloor> @ '' '' @ unit v
                   @ (if \<lfloor>humanVal v\<rfloor> \<noteq> 1 then ''s'' else ''''))"
  unfolding gdd_valid Let_def assms by simp_all

lemma gdd_diff: "diff (getDurationData now (Num w) b a s e) = \<bar>(w - now) div 1000\<bar>"
  by (simp add: gdd_fields(1))

lemma gdd_isPast: "isPast (getDurationData now (Num w) b a s e) = ((w - now) div 1000 < 0)"
  by (simp add: gdd_fields(2))

lemma gdd_invalid: "invalid (getDurationData now whn b a s e) = (whn = NaN)"
  by (cases whn) (simp_all add: getDurationData_def Let_def)

text \<open>The number of seconds \<^verbatim>\<open>next\<close> holds after the loop is at least one.\<close>

lemma nxt_find_unit_pos:
  assumes "0 \<le> d"
  shows "1 \<le> nxt (find_unit 0 d past \<lparr>extra = 0, nxt = 1, humanVal = h, unit = u0\<rparr>)"
proof (cases "List.find (\<lambda>(m, u). m < d) spec_thresholds")
  case None
  then have "d \<le> 60" by (simp add: find_threshold_none)
  then show ?thesis by (simp add: find_unit_miss)
next
  case (Some mu)
  obtain m u where mu: "mu = (m, u)" by (cases mu)
  from Some mu have f: "List.find (\<lambda>(m, u). m < d) spec_thresholds = Some (m, u)" by simp
  from find_threshold_multiplier[OF f] have m: "60 \<le> m" by simp
  have "0 < d mod m \<Longrightarrow> 1 \<le> d mod m" by simp
  with m show ?thesis by (simp add: find_unit_hit[OF f])
qed

text \<open>Negating the floor of the signed quotient rounds the absolute quotient up.\<close>

lemma neg_quot_1000: "- ((of_int (a - b) :: rat) / 1000) = of_int (b - a) / 1000"
  by (simp add: field_simps)

lemma ceiling_floor_quot:
  "\<lceil>(of_int (now - target) :: rat) / 1000\<rceil> = - floor_quot (target - now) 1000"
  unfolding ceiling_def floor_quot_def by (simp add: neg_quot_1000 del: of_int_diff)

lemma find_unit_spec_unit:
  "unit (find_unit 0 d past \<lparr>extra = 0, nxt = 1, humanVal = of_int d, unit = ''second''\<rparr>)
     = fst (spec_unit d)
   \<and> \<lfloor>humanVal (find_unit 0 d past
         \<lparr>extra = 0, nxt = 1, humanVal = of_int d, unit = ''second''\<rparr>)\<rfloor>
     = snd (spec_unit d)"
proof (cases "List.find (\<lambda>(m, u). m < d) spec_thresholds")
  case None
  then have "d \<le> 60" by (simp add: find_threshold_none)
  then show ?thesis using None by (simp add: find_unit_miss spec_unit_def)
next
  case (Some mu)
  obtain m u where mu: "mu = (m, u)" by (cases mu)
  from Some mu have f: "List.find (\<lambda>(m, u). m < d) spec_thresholds = Some (m, u)" by simp
  have fl: "\<lfloor>(of_int d :: rat) / of_int m\<rfloor> = d div m"
    by (rule floor_divide_of_int_eq)
  show ?thesis by (simp add: find_unit_hit[OF f] spec_unit_def f fl)
qed

lemma spec_unit_second: "d \<le> 60 \<Longrightarrow> spec_unit d = (''second'', d)"
  using find_threshold_none[of d] by (simp add: spec_unit_def)

subsection \<open>The component\<close>

text \<open>What one run of \<^verbatim>\<open>updateStrings\<close> does, field by field.\<close>

lemma updateStrings_null:
  "priv_end c = None \<Longrightarrow>
     updateStrings now c = Inl (TypeError, clearTimeout (priv_timeout c) c)"
  by (simp add: updateStrings_def clearTimeout_def Let_def split: option.splits)

lemma clearTimeout_fields:
  "priv_end (clearTimeout h c) = priv_end c"
  "this_isPast (clearTimeout h c) = this_isPast c"
  "dispatched (clearTimeout h c) = dispatched c"
  "this_before (clearTimeout h c) = this_before c"
  "this_after (clearTimeout h c) = this_after c"
  "this_start (clearTimeout h c) = this_start c"
  "this_end (clearTimeout h c) = this_end c"
  "priv_timeout (clearTimeout h c) = priv_timeout c"
  "timer_count (clearTimeout h c) = timer_count c"
  "priv_keepaliveCallback (clearTimeout h c) = priv_keepaliveCallback c"
  "callback_calls (clearTimeout h c) = callback_calls c"
  by (simp_all add: clearTimeout_def split: option.splits)

lemma result_at_clearTimeout: "result_at (clearTimeout h c) whn now = result_at c whn now"
  by (simp add: result_at_def clearTimeout_fields)

lemma updateStrings_frozen:
  assumes "priv_end c = Some whn"
    and "\<not> (invalid (result_at c whn now) = False \<and> diff (result_at c whn now) < 28800)"
  shows "updateStrings now c =
     Inr ((if this_isPast c = False \<and> isPast (result_at c whn now) = True
           then emitEvent ''sessionexpired'' True (clearTimeout (priv_timeout c) c)
           else clearTimeout (priv_timeout c) c)
          \<lparr>this_isPast := isPast (result_at c whn now),
           this_diff := Some (diff (result_at c whn now)),
           msgSpan_innerText := ''Session '' @ prefixTxt (result_at c whn now)
              @ startWord (result_at c whn now) @ '' '',
           valueSpan_innerText := dynamicDuration (result_at c whn now)
              @ endWord (result_at c whn now)\<rparr>)"
proof -
  define r where "r = result_at c whn now"
  have g: "getDurationData now whn (this_before c) (this_after c) (this_start c) (this_end c) = r"
    by (simp add: r_def result_at_def)
  show ?thesis
  proof (cases "invalid r")
    case True
    then show ?thesis
      unfolding updateStrings_def Let_def r_def[symmetric]
      by (simp add: clearTimeout_fields assms(1) g)
  next
    case False
    with assms(2) have "\<not> diff r < 28800" unfolding r_def by simp
    then show ?thesis
      unfolding updateStrings_def Let_def r_def[symmetric]
      by (simp add: clearTimeout_fields assms(1) g)
  qed
qed

lemma updateStrings_scheduled:
  assumes "priv_end c = Some whn"
    and "invalid (result_at c whn now) = False" and "diff (result_at c whn now) < 28800"
  shows "updateStrings now c =
     Inr ((if this_isPast c = False \<and> isPast (result_at c whn now) = True
           then emitEvent ''sessionexpired'' True (clearTimeout (priv_timeout c) c)
           else clearTimeout (priv_timeout c) c)
          \<lparr>this_isPast := isPast (result_at c whn now),
           this_diff := Some (diff (result_at c whn now)),
           msgSpan_innerText := ''Session '' @ prefixTxt (result_at c whn now)
              @ startWord (result_at c whn now) @ '' '',
           valueSpan_innerText := dynamicDuration (result_at c whn now)
              @ endWord (result_at c whn now),
           timers := timers (clearTimeout (priv_timeout c) c)
              @ [(timer_count c, timeout (result_at c whn now))],
           timer_count := Suc (timer_count c),
           priv_timeout := Some (timer_count c)\<rparr>)"
proof -
  define r where "r = result_at c whn now"
  have g: "getDurationData now whn (this_before c) (this_after c) (this_start c) (this_end c) = r"
    by (simp add: r_def result_at_def)
  have n: "\<not> invalid r" "diff r < 28800"
    using assms(2,3) unfolding r_def by simp_all
  show ?thesis
    unfolding updateStrings_def Let_def r_def[symmetric]
    using n by (simp add: clearTimeout_fields assms(1) g setTimeout_def emitEvent_def)
qed

lemma tick_summary:
  assumes "priv_end c = Some whn"
  shows "priv_end (tick now c) = Some whn
     \<and> this_before (tick now c) = this_before c
     \<and> this_after (tick now c) = this_after c
     \<and> this_start (tick now c) = this_start c
     \<and> this_end (tick now c) = this_end c
     \<and> this_isPast (tick now c) = isPast (result_at c whn now)
     \<and> dispatched (tick now c) =
           dispatched c @ (if this_isPast c = False \<and> isPast (result_at c whn now) = True
                           then [(''sessionexpired'', True)] else [])
     \<and> priv_keepaliveCallback (tick now c) = priv_keepaliveCallback c
     \<and> callback_calls (tick now c) = callback_calls c"
proof (cases "invalid (result_at c whn now) = False \<and> diff (result_at c whn now) < 28800")
  case True
  then have u: "invalid (result_at c whn now) = False" "diff (result_at c whn now) < 28800"
    by simp_all
  show ?thesis
    unfolding tick_def updateStrings_scheduled[OF assms u]
    using assms by (simp add: clearTimeout_fields emitEvent_def)
next
  case False
  show ?thesis
    unfolding tick_def updateStrings_frozen[OF assms False]
    using assms by (simp add: clearTimeout_fields emitEvent_def)
qed

lemma tick_fields:
  assumes "priv_end c = Some whn"
  shows "priv_end (tick now c) = Some whn"
    and "this_before (tick now c) = this_before c"
    and "this_after (tick now c) = this_after c"
    and "this_start (tick now c) = this_start c"
    and "this_end (tick now c) = this_end c"
    and "this_isPast (tick now c) = isPast (result_at c whn now)"
    and "dispatched (tick now c) =
           dispatched c @ (if this_isPast c = False \<and> isPast (result_at c whn now) = True
                           then [(''sessionexpired'', True)] else [])"
  using tick_summary[OF assms, of now] by simp_all

lemma result_at_tick:
  assumes "priv_end c = Some whn"
  shows "result_at (tick now c) w t = result_at c w t"
  by (simp add: result_at_def tick_fields[OF assms])

lemma ticks_append: "ticks (xs @ ys) c = ticks ys (ticks xs c)"
  by (induction xs arbitrary: c) simp_all

text \<open>While no result is past nothing is dispatched; once the state is past, past results
  dispatch nothing either.\<close>

lemma ticks_steady:
  assumes "priv_end c = Some whn"
    and "\<forall>t\<in>set ts. isPast (result_at c whn t) = this_isPast c"
  shows "dispatched (ticks ts c) = dispatched c
     \<and> this_isPast (ticks ts c) = this_isPast c
     \<and> priv_end (ticks ts c) = Some whn
     \<and> (\<forall>w t. result_at (ticks ts c) w t = result_at c w t)"
  using assms
proof (induction ts arbitrary: c)
  case Nil
  then show ?case by simp
next
  case (Cons now ts)
  let ?c = "tick now c"
  note f = tick_fields[OF Cons.prems(1), of now]
  have p: "isPast (result_at c whn now) = this_isPast c"
    using Cons.prems(2) by simp
  have e: "priv_end ?c = Some whn" by (rule f)
  have i: "this_isPast ?c = this_isPast c" using f(6) p by simp
  have d: "dispatched ?c = dispatched c" using f(7) p by simp
  have r: "result_at ?c w t = result_at c w t" for w t
    by (rule result_at_tick[OF Cons.prems(1)])
  have "\<forall>t\<in>set ts. isPast (result_at ?c whn t) = this_isPast ?c"
    using Cons.prems(2) by (simp add: r i)
  from Cons.IH[OF e this] show ?case
    by (simp add: d i r)
qed

lemma trim_nonblank: "s \<noteq> [] \<Longrightarrow> \<not> is_space (hd s) \<Longrightarrow> trim s \<noteq> []"
  by (cases s) (simp_all add: trim_def)

lemma setEnd_string:
  assumes "trim s \<noteq> []"
  shows "setEnd (JString s) created now c =
     (if created < now then
        Inr (c\<lparr>console := console c
               @ [Warn ''<session-timeout> expects new end date-time to be later than now'']\<rparr>)
      else Inr (c\<lparr>priv_end := Some (Num created)\<rparr>))"
  using assms by (simp add: setEnd_def setEndInner_def)

text \<open>Registering and removing listeners touches the list of listeners only.\<close>

lemma addEventListener_fields:
  "dispatched (addEventListener ev l c) = dispatched c"
  "callback_calls (addEventListener ev l c) = callback_calls c"
  "priv_keepaliveCallback (addEventListener ev l c) = priv_keepaliveCallback c"
  "priv_keepalive (addEventListener ev l c) = priv_keepalive c"
  "set (listeners (addEventListener ev l c))
     = set (listeners c) \<union> (case l of None \<Rightarrow> {} | Some f \<Rightarrow> {(ev, f)})"
  by (auto simp add: addEventListener_def split: option.splits)

lemma removeEventListener_fields:
  "callback_calls (removeEventListener ev l c) = callback_calls c"
  "priv_keepaliveCallback (removeEventListener ev l c) = priv_keepaliveCallback c"
  "priv_keepalive (removeEventListener ev l c) = priv_keepalive c"
  by (simp_all add: removeEventListener_def split: option.splits)

text \<open>When the keepalive the component holds is at most the floor, \<^verbatim>\<open>setListeners\<close>
  registers the two reset listeners and nothing else.\<close>

lemma setListeners_below_floor:
  assumes "priv_keepalive c \<le> minKeepalive"
  shows "setListeners clk c =
     addEventListener ''resetsession'' (Some L_resetEnd)
       (addEventListener ''setsessionend'' (Some L_setSessionEnd) c)"
  using assms by (simp add: setListeners_def Let_def addEventListener_fields)

lemma dispatchWindow_unheard:
  assumes "\<forall>(n, l)\<in>set (listeners c). n \<noteq> ev"
  shows "dispatchWindow invoke ev now c = c"
proof -
  have "filter (\<lambda>(n, l). n = ev) (listeners c) = []"
    using assms by (auto simp add: filter_empty_conv)
  then show ?thesis by (simp add: dispatchWindow_def)
qed

lemma interactions_unheard:
  assumes "\<forall>(ev, t)\<in>set evs. \<forall>(n, l)\<in>set (listeners c). n \<noteq> ev"
  shows "interactions invoke evs c = c"
  using assms
proof (induction evs)
  case Nil
  then show ?case by simp
next
  case (Cons x evs)
  obtain ev t where x: "x = (ev, t)" by (cases x)
  from Cons.prems x have "\<forall>(n, l)\<in>set (listeners c). n \<noteq> ev" by simp
  then have "dispatchWindow invoke ev t c = c" by (rule dispatchWindow_unheard)
  with Cons show ?case by (simp add: x)
qed

text \<open>
  The path that keeps the promise of the documentation: when the keepalive the component
  holds is at most the floor, as after the setter is given 20, \<^verbatim>\<open>setListeners\<close> and
  any run of interactions after it dispatch nothing and call no handler.
\<close>

lemma stored_keepalive_below_floor:
  assumes "priv_keepalive c \<le> minKeepalive"
    and "\<forall>(n, l)\<in>set (listeners c). n \<notin> set watchableEvents"
    and "\<forall>(ev, t)\<in>set evs. ev \<in> set watchableEvents"
  shows "dispatched (interactions invoke evs (setListeners clk c)) = dispatched c
     \<and> callback_calls (interactions invoke evs (setListeners clk c)) = callback_calls c
     \<and> interactions invoke evs (setListeners clk c) = setListeners clk c"
proof -
  let ?s = "setListeners clk c"
  note s = setListeners_below_floor[OF assms(1), of clk]
  have w: "''setsessionend'' \<notin> set watchableEvents" "''resetsession'' \<notin> set watchableEvents"
    by (simp_all add: watchableEvents_def)
  have l: "\<forall>(n, l)\<in>set (listeners ?s). n \<notin> set watchableEvents"
    unfolding s using assms(2) w by (auto simp add: addEventListener_fields)
  have "\<forall>(ev, t)\<in>set evs. \<forall>(n, l)\<in>set (listeners ?s). n \<noteq> ev"
    using l assms(3) by fastforce
  then have i: "interactions invoke evs ?s = ?s" by (rule interactions_unheard)
  have "dispatched ?s = dispatched c" "callback_calls ?s = callback_calls c"
    unfolding s by (simp_all add: addEventListener_fields)
  with i show ?thesis by simp
qed

lemma set_keepalive_seconds:
  "priv_keepalive (set_keepalive (JNumber (Num 20)) c) = 20"
  "priv_keepalive (set_keepalive (JString ''20'') new_component) = 20"
  by (simp_all add: set_keepalive_def parseInt10_def is_space_def is_digit_def digit_value_def
      Let_def)

text \<open>The floor is tested where the listeners are registered, not in \<^verbatim>\<open>updateKeepAlive\<close>:
  a direct call with a keepalive of 20 seconds dispatches the event.\<close>

lemma updateKeepAlive_has_no_floor:
  "dispatched (updateKeepAlive 100000 (new_component\<lparr>priv_keepalive := 20\<rparr>))
     = [(''keepalive'', True)]"
  by (simp add: updateKeepAlive_def emitEvent_def new_component_def Let_def)

text \<open>Above the floor the loop calls \<^verbatim>\<open>updateKeepAlive\<close> while registering, and what it
  registers is \<^verbatim>\<open>undefined\<close>: the listeners are those registered below the floor.\<close>

lemma updateKeepAlive_listeners: "listeners (updateKeepAlive now c) = listeners c"
  by (simp add: updateKeepAlive_def emitEvent_def call_value_def get_keepaliveCallback_def Let_def)

lemma keepaliveLoop_listeners: "listeners (keepaliveLoop clk i evs c) = listeners c"
  by (induction evs arbitrary: i c)
    (simp_all add: addEventListener_def updateKeepAlive_listeners)

lemma setListeners_listeners:
  "set (listeners (setListeners clk c)) =
     set (listeners c) \<union> {(''setsessionend'', L_setSessionEnd), (''resetsession'', L_resetEnd)}"
  by (auto simp add: setListeners_def Let_def keepaliveLoop_listeners addEventListener_fields)

text \<open>
  A call changes at most the count of the calls; the call of
  \<^verbatim>\<open>this.keepaliveCallback()\<close> raises whatever the stored function is.
\<close>

lemma call_value_fields:
  "dispatched (snd (call_value v c)) = dispatched c"
  "console (snd (call_value v c)) = console c"
  by (simp_all add: call_value_def split: jsval.splits)

lemma call_keepaliveCallback:
  "call_value (get_keepaliveCallback c) c = (Some TypeError, c)"
  by (simp add: call_value_def get_keepaliveCallback_def)

lemma updateKeepAlive_quiet:
  assumes "\<not> now - priv_lastKeep c > priv_keepalive c * 1000"
  shows "updateKeepAlive now c = c\<lparr>priv_lastInteraction := now\<rparr>"
  using assms by (simp add: updateKeepAlive_def Let_def)

lemma updateKeepAlive_default:
  assumes "priv_keepaliveCallback c = None" and "now - priv_lastKeep c > priv_keepalive c * 1000"
  shows "updateKeepAlive now c =
     c\<lparr>priv_lastInteraction := now, priv_lastKeep := now,
       dispatched := dispatched c @ [(''keepalive'', True)]\<rparr>"
  using assms by (simp add: updateKeepAlive_def Let_def emitEvent_def)

text \<open>When the call raises, the handler is cleared and the event dispatched.\<close>

lemma updateKeepAlive_raised:
  assumes "priv_keepaliveCallback c = Some h" and "now - priv_lastKeep c > priv_keepalive c * 1000"
    and "fst (call_value (get_keepaliveCallback (c\<lparr>priv_lastInteraction := now, priv_lastKeep := now\<rparr>))
           (c\<lparr>priv_lastInteraction := now, priv_lastKeep := now\<rparr>)) = Some e"
  shows "priv_keepaliveCallback (updateKeepAlive now c) = None"
    and "dispatched (updateKeepAlive now c) = dispatched c @ [(''keepalive'', True)]"
proof -
  let ?c2 = "c\<lparr>priv_lastInteraction := now, priv_lastKeep := now\<rparr>"
  obtain r c3 where r: "call_value (get_keepaliveCallback ?c2) ?c2 = (r, c3)"
    by (cases "call_value (get_keepaliveCallback ?c2) ?c2")
  with assms(3) have e: "r = Some e" by simp
  from r have "c3 = snd (call_value (get_keepaliveCallback ?c2) ?c2)" by simp
  then have d: "dispatched c3 = dispatched c"
    by (simp add: call_value_fields)
  have u: "updateKeepAlive now c =
      emitEvent ''keepalive'' True
        (c3\<lparr>console := console c3
              @ [ErrorLog ''<session-timeout> caught error when calling keepaliveCallback():''],
            priv_keepaliveCallback := None\<rparr>)"
    using assms(1,2) by (simp add: updateKeepAlive_def Let_def r e)
  show "priv_keepaliveCallback (updateKeepAlive now c) = None"
    unfolding u by (simp add: emitEvent_def)
  show "dispatched (updateKeepAlive now c) = dispatched c @ [(''keepalive'', True)]"
    unfolding u by (simp add: emitEvent_def d)
qed

text \<open>The setter is the one place that stores a handler; \<^verbatim>\<open>null\<close> changes nothing.\<close>

lemma set_keepaliveCallback_stores:
  "priv_keepaliveCallback (set_keepaliveCallback (JFunction f) c) = Some f"
  "set_keepaliveCallback JNull c = c"
  by (simp_all add: set_keepaliveCallback_def)

text \<open>
  While no handler is stored, no operation but the setter given a function stores one,
  and none calls a handler.
\<close>

lemma updateKeepAlive_keeps:
  assumes "priv_keepaliveCallback c = None"
  shows "priv_keepaliveCallback (updateKeepAlive now c) = None"
    and "callback_calls (updateKeepAlive now c) = callback_calls c"
  using assms by (simp_all add: updateKeepAlive_def Let_def emitEvent_def)

lemma tick_keeps:
  "callback_calls (tick now c) = callback_calls c"
  "priv_keepaliveCallback (tick now c) = priv_keepaliveCallback c"
proof -
  show "callback_calls (tick now c) = callback_calls c"
  proof (cases "priv_end c")
    case None
    then show ?thesis by (simp add: tick_def updateStrings_null clearTimeout_fields)
  next
    case (Some whn)
    from tick_summary[OF this, of now] show ?thesis by simp
  qed
  show "priv_keepaliveCallback (tick now c) = priv_keepaliveCallback c"
  proof (cases "priv_end c")
    case None
    then show ?thesis by (simp add: tick_def updateStrings_null clearTimeout_fields)
  next
    case (Some whn)
    from tick_summary[OF this, of now] show ?thesis by simp
  qed
qed

lemma setEndInner_keeps:
  assumes "setEndInner newEnd now c = Inr c'"
  shows "callback_calls c' = callback_calls c"
    and "priv_keepaliveCallback c' = priv_keepaliveCallback c"
  using assms by (auto simp add: setEndInner_def split: if_splits)

lemma setEnd_keeps:
  assumes "setEnd s created now c = Inr c'"
  shows "callback_calls c' = callback_calls c"
    and "priv_keepaliveCallback c' = priv_keepaliveCallback c"
  using assms setEndInner_keeps[of "Num created" now c c']
  by (auto simp add: setEnd_def split: if_splits)

lemma setSessionEnd_keeps:
  assumes "setSessionEnd event created now c = Inr c'"
  shows "callback_calls c' = callback_calls c"
    and "priv_keepaliveCallback c' = priv_keepaliveCallback c"
proof -
  from assms obtain s where "setEnd (JString s) created now c = Inr c'"
    by (auto simp add: setSessionEnd_def Let_def split: option.splits jsval.splits)
  then show "callback_calls c' = callback_calls c"
    and "priv_keepaliveCallback c' = priv_keepaliveCallback c"
    by (rule setEnd_keeps)+
qed

lemma resetEnd_keeps:
  assumes "resetEnd created now c = Inr c'"
  shows "callback_calls c' = callback_calls c"
    and "priv_keepaliveCallback c' = priv_keepaliveCallback c"
  using assms unfolding resetEnd_def by (rule setEndInner_keeps)+

lemma set_duration_keeps:
  "callback_calls (set_duration input c) = callback_calls c"
  "priv_keepaliveCallback (set_duration input c) = priv_keepaliveCallback c"
  by (simp_all add: set_duration_def split: sum.splits)

lemma set_keepalive_keeps:
  "callback_calls (set_keepalive input c) = callback_calls c"
  "priv_keepaliveCallback (set_keepalive input c) = priv_keepaliveCallback c"
  by (simp_all add: set_keepalive_def Let_def split: jsval.splits jsnum.splits)

lemma set_when_keeps:
  "callback_calls (set_when input created now c) = callback_calls c"
  "priv_keepaliveCallback (set_when input created now c) = priv_keepaliveCallback c"
  by (auto simp add: set_when_def split: sum.splits dest: setEnd_keeps)

lemma set_keepaliveCallback_keeps:
  assumes "\<not> assigns_handler (SetKeepaliveCallback input)"
  shows "callback_calls (set_keepaliveCallback input c) = callback_calls c"
    and "priv_keepaliveCallback (set_keepaliveCallback input c) = priv_keepaliveCallback c"
  using assms by (cases input; simp add: set_keepaliveCallback_def)+

lemma keepaliveLoop_keeps:
  assumes "priv_keepaliveCallback c = None"
  shows "priv_keepaliveCallback (keepaliveLoop clk i evs c) = None
     \<and> callback_calls (keepaliveLoop clk i evs c) = callback_calls c"
  using assms
proof (induction evs arbitrary: i c)
  case Nil
  then show ?case by simp
next
  case (Cons ev evs)
  let ?c = "addEventListener ev None (updateKeepAlive (clk i) c)"
  have "priv_keepaliveCallback ?c = None"
    using updateKeepAlive_keeps(1)[OF Cons.prems] by (simp add: addEventListener_fields)
  from Cons.IH[OF this] show ?case
    using updateKeepAlive_keeps(2)[OF Cons.prems] by (simp add: addEventListener_fields)
qed

lemma clearLoop_keeps:
  assumes "priv_keepaliveCallback c = None"
  shows "priv_keepaliveCallback (clearLoop clk i evs c) = None
     \<and> callback_calls (clearLoop clk i evs c) = callback_calls c"
  using assms
proof (induction evs arbitrary: i c)
  case Nil
  then show ?case by simp
next
  case (Cons ev evs)
  let ?c = "removeEventListener ev None (updateKeepAlive (clk i) c)"
  have "priv_keepaliveCallback ?c = None"
    using updateKeepAlive_keeps(1)[OF Cons.prems] by (simp add: removeEventListener_fields)
  from Cons.IH[OF this] show ?case
    using updateKeepAlive_keeps(2)[OF Cons.prems] by (simp add: removeEventListener_fields)
qed

lemma setListeners_keeps:
  assumes "priv_keepaliveCallback c = None"
  shows "priv_keepaliveCallback (setListeners clk c) = None
     \<and> callback_calls (setListeners clk c) = callback_calls c"
proof -
  let ?c2 = "addEventListener ''resetsession'' (Some L_resetEnd)
       (addEventListener ''setsessionend'' (Some L_setSessionEnd) c)"
  have n: "priv_keepaliveCallback ?c2 = None" "callback_calls ?c2 = callback_calls c"
    using assms by (simp_all add: addEventListener_fields)
  show ?thesis
    unfolding setListeners_def Let_def
    using keepaliveLoop_keeps[OF n(1), of clk 0 watchableEvents] n by simp
qed

lemma clearListeners_keeps:
  assumes "priv_keepaliveCallback c = None"
  shows "priv_keepaliveCallback (clearListeners clk c) = None
     \<and> callback_calls (clearListeners clk c) = callback_calls c"
proof -
  let ?c2 = "removeEventListener ''resetsession'' (Some L_resetEnd)
       (removeEventListener ''setsessionend'' (Some L_setSessionEnd) c)"
  have n: "priv_keepaliveCallback ?c2 = None" "callback_calls ?c2 = callback_calls c"
    using assms by (simp_all add: removeEventListener_fields)
  show ?thesis
    unfolding clearListeners_def Let_def
    using clearLoop_keeps[OF n(1), of clk 0 watchableEvents] n by simp
qed

lemma disconnectedCallback_keeps:
  assumes "priv_keepaliveCallback c = None"
  shows "priv_keepaliveCallback (disconnectedCallback clk c) = None
     \<and> callback_calls (disconnectedCallback clk c) = callback_calls c"
  using clearListeners_keeps[OF assms, of clk]
  by (simp add: disconnectedCallback_def Let_def clearTimeout_fields)

lemma connectedCallback_keeps:
  assumes "priv_keepaliveCallback c = None"
  shows "priv_keepaliveCallback (run_op (Connect attrs clk) c) = None
     \<and> callback_calls (run_op (Connect attrs clk) c) = callback_calls c"
proof -
  define ok where
    "ok = (\<lambda>c1 :: component. priv_keepaliveCallback c1 = None \<and> callback_calls c1 = callback_calls c)"
  define stage1 where "stage1 =
     (case attr_duration attrs of
        None \<Rightarrow> Inr c
      | Some s \<Rightarrow>
          (case sanitiseDuation (JString s) of
             Inl e \<Rightarrow> Inl (e, c)
           | Inr d \<Rightarrow> Inr (c\<lparr>priv_duration := d\<rparr>)))"
  define stage2 where "stage2 = (\<lambda>c1.
     (case attr_when attrs of
        None \<Rightarrow> Inr c1
      | Some s \<Rightarrow>
          (case setEnd (JString s) (when_created clk) (when_now clk) c1 of
             Inl e \<Rightarrow> Inl (e, c1)
           | Inr c' \<Rightarrow> Inr c')))"
  define stage3 where "stage3 = (\<lambda>c2 :: component.
     (case attr_keepalive attrs of
        None \<Rightarrow> Inr c2
      | Some s \<Rightarrow>
          (case sanitiseDuation (JString s) of
             Inl e \<Rightarrow> Inl (e, c2)
           | Inr k \<Rightarrow> Inr (c2\<lparr>priv_keepalive := k\<rparr>))))"
  define stage4 where "stage4 = (\<lambda>c3.
     (case resetEnd (reset_created clk) (reset_now clk) c3 of
        Inl e \<Rightarrow> Inl (e, c3)
      | Inr c4 \<Rightarrow>
          (case setTimeout 1000 (setListeners (listener_clock clk) c4) of
             (h, c5) \<Rightarrow> Inr (c5\<lparr>priv_timeout := Some h\<rparr>))))"
  define left where "left = (\<lambda>r :: (error \<times> component) + component. case r of Inl (e, c1) \<Rightarrow> c1 | Inr c1 \<Rightarrow> c1)"
  have unfolded: "connectedCallback attrs clk c =
     (case stage1 of Inl x \<Rightarrow> Inl x | Inr c1 \<Rightarrow>
     (case stage2 c1 of Inl x \<Rightarrow> Inl x | Inr c2 \<Rightarrow>
     (case stage3 c2 of Inl x \<Rightarrow> Inl x | Inr c3 \<Rightarrow> stage4 c3)))"
    unfolding connectedCallback_def stage1_def stage2_def stage3_def stage4_def ..
  have c: "ok c" using assms by (simp add: ok_def)
  have s1: "ok (left stage1)"
    using c by (auto simp add: ok_def left_def stage1_def split: option.splits sum.splits)
  have s2: "ok (left (stage2 c1))" if "ok c1" for c1
    using that
    by (auto simp add: ok_def left_def stage2_def split: option.splits sum.splits
        dest: setEnd_keeps)
  have s3: "ok (left (stage3 c2))" if "ok c2" for c2
    using that by (auto simp add: ok_def left_def stage3_def split: option.splits sum.splits)
  have s4: "ok (left (stage4 c3))" if "ok c3" for c3
  proof (cases "resetEnd (reset_created clk) (reset_now clk) c3")
    case (Inl e)
    with that show ?thesis by (simp add: left_def stage4_def)
  next
    case (Inr c4)
    from resetEnd_keeps[OF Inr] that have n: "priv_keepaliveCallback c4 = None"
      and k: "callback_calls c4 = callback_calls c"
      by (simp_all add: ok_def)
    from setListeners_keeps[OF n, of "listener_clock clk"] k
    show ?thesis
      by (simp add: left_def stage4_def Inr setTimeout_def ok_def)
  qed
  have "ok (left (connectedCallback attrs clk c))"
  proof (cases stage1)
    case (Inl x)
    with s1 show ?thesis by (simp add: unfolded)
  next
    case a: (Inr c1)
    with s1 have o1: "ok c1" by (simp add: left_def)
    show ?thesis
    proof (cases "stage2 c1")
      case (Inl x)
      with s2[OF o1] a show ?thesis by (simp add: unfolded)
    next
      case b: (Inr c2)
      with s2[OF o1] have o2: "ok c2" by (simp add: left_def)
      show ?thesis
      proof (cases "stage3 c2")
        case (Inl x)
        with s3[OF o2] a b show ?thesis by (simp add: unfolded)
      next
        case d: (Inr c3)
        with s3[OF o2] have o3: "ok c3" by (simp add: left_def)
        from s4[OF o3] a b d show ?thesis by (simp add: unfolded)
      qed
    qed
  qed
  then show ?thesis by (simp add: ok_def left_def)
qed

lemma run_op_keeps:
  assumes "priv_keepaliveCallback c = None" and "\<not> assigns_handler x"
  shows "priv_keepaliveCallback (run_op x c) = None
     \<and> callback_calls (run_op x c) = callback_calls c"
proof (cases x)
  case (Tick now)
  then show ?thesis using assms(1) by (simp add: tick_keeps)
next
  case (Interact now)
  then show ?thesis using updateKeepAlive_keeps[OF assms(1)] by simp
next
  case (ResetEnd created now)
  then show ?thesis using assms(1)
    by (auto split: sum.splits dest: resetEnd_keeps)
next
  case (SetEnd s created now)
  then show ?thesis using assms(1)
    by (auto split: sum.splits dest: setEnd_keeps)
next
  case (SetSessionEnd event created now)
  then show ?thesis using assms(1)
    by (auto split: sum.splits dest: setSessionEnd_keeps)
next
  case (SetDuration input)
  then show ?thesis using assms(1) by (simp add: set_duration_keeps)
next
  case (SetKeepalive input)
  then show ?thesis using assms(1) by (simp add: set_keepalive_keeps)
next
  case (SetKeepaliveCallback input)
  with assms(2) have "\<not> assigns_handler (SetKeepaliveCallback input)" by simp
  from set_keepaliveCallback_keeps[OF this] show ?thesis
    using assms(1) SetKeepaliveCallback by simp
next
  case (SetWhen input created now)
  then show ?thesis using assms(1) by (simp add: set_when_keeps)
next
  case (SetListeners clk)
  then show ?thesis using setListeners_keeps[OF assms(1)] by simp
next
  case (ClearListeners clk)
  then show ?thesis using clearListeners_keeps[OF assms(1)] by simp
next
  case (Connect attrs clk)
  then show ?thesis using connectedCallback_keeps[OF assms(1)] by simp
next
  case (Disconnect clk)
  then show ?thesis using disconnectedCallback_keeps[OF assms(1)] by simp
qed

lemma run_ops_keeps:
  assumes "priv_keepaliveCallback c = None" and "list_all (\<lambda>x. \<not> assigns_handler x) xs"
  shows "priv_keepaliveCallback (run_ops xs c) = None
     \<and> callback_calls (run_ops xs c) = callback_calls c"
  using assms
proof (induction xs arbitrary: c)
  case Nil
  then show ?case by simp
next
  case (Cons x xs)
  from Cons.prems have x: "\<not> assigns_handler x"
    and xs: "list_all (\<lambda>x. \<not> assigns_handler x) xs"
    by simp_all
  note k = run_op_keeps[OF Cons.prems(1) x]
  from Cons.IH[OF conjunct1[OF k] xs] show ?case
    using k by simp
qed

section \<open>Claims\<close>

subsection \<open>The duration calculator\<close>

text \<open>
  Claim C1, as the code has it. For integer timestamps with \<open>target \<le> now\<close>, the
  result of \<open>getDurationData now target\<close> has \<open>isPast\<close> true exactly when
  \<open>target < now\<close> (a target equal to \<open>now\<close> is not past), and its \<open>diff\<close> is the
  negated floor of \<open>(target - now) / 1000\<close>, which is \<open>(now - target) / 1000\<close>
  rounded up, a non-negative number.
\<close>

theorem getDurationData_past_diff:
  assumes "target \<le> now"
  shows "isPast (getDurationData now (Num target) before_txt after_txt start_txt end_txt)
           = (target < now)
     \<and> diff (getDurationData now (Num target) before_txt after_txt start_txt end_txt)
           = - floor_quot (target - now) 1000
     \<and> diff (getDurationData now (Num target) before_txt after_txt start_txt end_txt)
           = \<lceil>(of_int (now - target) :: rat) / 1000\<rceil>
     \<and> 0 \<le> diff (getDurationData now (Num target) before_txt after_txt start_txt end_txt)"
proof -
  define q where "q = (target - now) div 1000"
  have q0: "q \<le> 0"
    using assms zdiv_mono1[of "target - now" 0 1000] unfolding q_def by simp
  have q1: "(q < 0) = (target < now)"
    unfolding q_def by (simp add: pos_imp_zdiv_neg_iff)
  have q2: "\<lceil>(of_int (now - target) :: rat) / 1000\<rceil> = - q"
    unfolding ceiling_floor_quot floor_quot_div q_def ..
  have a: "\<bar>q\<bar> = - q" using q0 by simp
  show ?thesis
    unfolding gdd_diff gdd_isPast floor_quot_div q_def[symmetric] a q1 q2
    using q0 by simp
qed

text \<open>
  At \<open>now = 1500\<close> and \<open>target = 0\<close> the target is past and the difference is 2
  seconds.
\<close>

theorem getDurationData_past_diff_witness:
  "(0::int) \<le> 1500
   \<and> isPast (getDurationData 1500 (Num 0) ''expires'' ''expired'' ''in'' ''ago'') = True
   \<and> diff (getDurationData 1500 (Num 0) ''expires'' ''expired'' ''in'' ''ago'') = 2"
proof -
  have h: "(0::int) \<le> 1500" by simp
  have c: "\<lceil>(of_int (1500 - 0) :: rat) / 1000\<rceil> = 2"
    by (simp add: ceiling_eq_iff)
  from getDurationData_past_diff[OF h, of "''expires''" "''expired''" "''in''" "''ago''"]
  show ?thesis
    unfolding c by simp
qed

text \<open>
  Claim C1, as stated, fails twice: with \<open>target = now = 5000\<close> the result is not
  past, and with \<open>now = 1500\<close>, \<open>target = 0\<close> the difference is 2, not the floor
  of \<open>1500 / 1000\<close>.
\<close>

theorem getDurationData_past_counterexample:
  "(5000::int) \<le> 5000
   \<and> \<not> (isPast (getDurationData 5000 (Num 5000) ''expires'' ''expired'' ''in'' ''ago'') = True)
   \<and> (0::int) \<le> 1500
   \<and> \<not> (diff (getDurationData 1500 (Num 0) ''expires'' ''expired'' ''in'' ''ago'')
          = floor_quot (1500 - 0) 1000)"
  by (simp add: gdd_diff gdd_isPast floor_quot_div)



text \<open>
  Claim C3. The difference of a valid computation is non-negative; the unit and the value
  the loop leaves are those of the specification's selection (the first of the thresholds
  31557600, 2629800, 604800, 86400, 3600, 60 that the difference strictly exceeds, and
  \<open>second\<close> with the difference itself when it exceeds none); and they are what the
  text shows when the difference is not zero.
\<close>

theorem getDurationData_unit_selection:
  "0 \<le> diff (getDurationData now (Num w) before_txt after_txt start_txt end_txt)
   \<and> (\<forall>d past.
        unit (find_unit 0 d past \<lparr>extra = 0, nxt = 1, humanVal = of_int d, unit = ''second''\<rparr>)
          = fst (spec_unit d)
        \<and> \<lfloor>humanVal (find_unit 0 d past
              \<lparr>extra = 0, nxt = 1, humanVal = of_int d, unit = ''second''\<rparr>)\<rfloor>
          = snd (spec_unit d))
   \<and> (diff (getDurationData now (Num w) before_txt after_txt start_txt end_txt) \<noteq> 0 \<longrightarrow>
        dynamicDuration (getDurationData now (Num w) before_txt after_txt start_txt end_txt) =
          number_text
            (snd (spec_unit (diff (getDurationData now (Num w) before_txt after_txt start_txt end_txt))))
          @ '' ''
          @ fst (spec_unit (diff (getDurationData now (Num w) before_txt after_txt start_txt end_txt)))
          @ (if snd (spec_unit (diff (getDurationData now (Num w) before_txt after_txt start_txt end_txt)))
                \<noteq> 1
             then ''s'' else ''''))
   \<and> (diff (getDurationData now (Num w) before_txt after_txt start_txt end_txt) \<le> 60 \<longrightarrow>
        spec_unit (diff (getDurationData now (Num w) before_txt after_txt start_txt end_txt))
          = (''second'', diff (getDurationData now (Num w) before_txt after_txt start_txt end_txt)))"
proof -
  define d where "d = \<bar>(w - now) div 1000\<bar>"
  define past where "past = ((w - now) div 1000 < 0)"
  define v where
    "v = find_unit 0 d past \<lparr>extra = 0, nxt = 1, humanVal = of_int d, unit = ''second''\<rparr>"
  note fs = gdd_fields[OF d_def past_def v_def, of before_txt after_txt start_txt end_txt]
  have d0: "0 \<le> d" unfolding d_def by simp
  have uv: "unit v = fst (spec_unit d)" "\<lfloor>humanVal v\<rfloor> = snd (spec_unit d)"
    unfolding v_def using find_unit_spec_unit[of d past] by simp_all
  have tx: "d \<noteq> 0 \<Longrightarrow>
      dynamicDuration (getDurationData now (Num w) before_txt after_txt start_txt end_txt) =
        number_text (snd (spec_unit d)) @ '' '' @ fst (spec_unit d)
          @ (if snd (spec_unit d) \<noteq> 1 then ''s'' else '''')"
    unfolding fs(5) uv by simp
  show ?thesis
    unfolding fs(1)
    using d0 tx find_unit_spec_unit spec_unit_second[of d] by blast
qed

text \<open>
  Five minutes ahead the text is \<open>5 minutes\<close>; 45 seconds ahead no threshold is
  exceeded and the unit is the second.
\<close>

theorem getDurationData_unit_selection_witness:
  "diff (getDurationData 0 (Num 300000) ''expires'' ''expired'' ''in'' ''ago'') \<noteq> 0
   \<and> dynamicDuration (getDurationData 0 (Num 300000) ''expires'' ''expired'' ''in'' ''ago'')
       = ''5 minutes''
   \<and> diff (getDurationData 0 (Num 45000) ''expires'' ''expired'' ''in'' ''ago'') \<le> 60
   \<and> spec_unit (diff (getDurationData 0 (Num 45000) ''expires'' ''expired'' ''in'' ''ago''))
       = (''second'', 45)"
proof -
  let ?r = "getDurationData 0 (Num 300000) ''expires'' ''expired'' ''in'' ''ago''"
  let ?q = "getDurationData 0 (Num 45000) ''expires'' ''expired'' ''in'' ''ago''"
  have e: "diff ?r = 300" "diff ?q = 45"
    by (simp_all add: gdd_diff)
  have u: "spec_unit 300 = (''minute'', 5)"
    by (simp add: spec_unit_def spec_thresholds_def)
  have s: "number_text 5 = ''5''"
    by (simp add: number_text_def digit_char_def)
  from getDurationData_unit_selection[of 0 300000 "''expires''" "''expired''" "''in''" "''ago''"]
  have a: "dynamicDuration ?r = ''5 minutes''"
    by (simp add: e u s)
  from getDurationData_unit_selection[of 0 45000 "''expires''" "''expired''" "''in''" "''ago''"]
  have b: "spec_unit (diff ?q) = (''second'', 45)"
    by (simp add: e)
  show ?thesis using a b by (simp add: e)
qed

text \<open>
  Claim C6, as the code has it. When the target is \<open>NaN\<close> the result is invalid, its
  text is \<open>unknown\<close>, its difference and its delay are 0, its end word and its prefix
  label are empty, and its start word is the before-label.
\<close>

theorem getDurationData_invalid_target:
  "getDurationData now NaN before_txt after_txt start_txt end_txt =
     \<lparr>dynamicDuration = ''unknown'', diff = 0, endWord = '''', invalid = True,
      isPast = False, prefixTxt = '''', startWord = before_txt, timeout = 0\<rparr>"
  by (simp add: getDurationData_def)

text \<open>
  Claim C6, as stated, fails: with the before-label \<open>expires\<close> the prefix label is not
  that label and the start word is not empty.
\<close>

theorem getDurationData_invalid_counterexample:
  "prefixTxt (getDurationData 0 NaN ''expires'' ''expired'' ''in'' ''ago'') \<noteq> ''expires''
   \<and> startWord (getDurationData 0 NaN ''expires'' ''expired'' ''in'' ''ago'') \<noteq> ''''"
  by (simp add: getDurationData_def)

text \<open>
  Claim C7. Whenever the result is not invalid, its delay is at least 1000 milliseconds.
\<close>

theorem getDurationData_timeout_lower_bound:
  "invalid (getDurationData now whn before_txt after_txt start_txt end_txt) = False
     \<longrightarrow> 1000 \<le> timeout (getDurationData now whn before_txt after_txt start_txt end_txt)"
proof (cases whn)
  case NaN
  then show ?thesis by (simp add: gdd_invalid)
next
  case (Num w)
  define d where "d = \<bar>(w - now) div 1000\<bar>"
  define past where "past = ((w - now) div 1000 < 0)"
  define v where
    "v = find_unit 0 d past \<lparr>extra = 0, nxt = 1, humanVal = of_int d, unit = ''second''\<rparr>"
  have "0 \<le> d" unfolding d_def by simp
  then have "1 \<le> nxt v" unfolding v_def by (rule nxt_find_unit_pos)
  then have "1000 \<le> (if \<not> past \<and> d \<noteq> 0 \<and> js_rem (nxt v) 60 = 0 then 1 else nxt v) * 1000"
    by simp
  then show ?thesis
    unfolding Num gdd_fields(4)[OF d_def past_def v_def] by simp
qed

text \<open>Two minutes ahead the result is valid and the delay is at least 1000.\<close>

theorem getDurationData_timeout_lower_bound_witness:
  "invalid (getDurationData 0 (Num 120000) ''expires'' ''expired'' ''in'' ''ago'') = False
   \<and> 1000 \<le> timeout (getDurationData 0 (Num 120000) ''expires'' ''expired'' ''in'' ''ago'')"
proof -
  have h: "invalid (getDurationData 0 (Num 120000) ''expires'' ''expired'' ''in'' ''ago'') = False"
    by (simp add: gdd_invalid)
  from getDurationData_timeout_lower_bound[of 0 "Num 120000" "''expires''" "''expired''" "''in''" "''ago''"] h
  show ?thesis
    by simp
qed

subsection \<open>The component\<close>

text \<open>
  Claim C4. Take a run of ticks on a component whose stored state is not past and whose
  target stays the same: first the ticks at the readings \<open>before\<close>, whose results are
  not past, then the ticks at the readings \<open>after\<close>, at least one, whose results are
  past. Nothing is dispatched during the first part; the first tick with a past result
  dispatches one \<open>sessionexpired\<close> event with detail \<open>True\<close>; and however many of
  the past ticks follow, that event stays the only one dispatched.
\<close>

theorem sessionexpired_once:
  assumes "priv_end c = Some whn" and "this_isPast c = False"
    and "\<forall>t\<in>set before. isPast (result_at c whn t) = False"
    and "\<forall>t\<in>set after. isPast (result_at c whn t) = True"
    and "after \<noteq> []"
  shows "dispatched (ticks before c) = dispatched c
     \<and> (\<forall>k. 0 < k \<longrightarrow>
          dispatched (ticks (before @ take k after) c)
            = dispatched c @ [(''sessionexpired'', True)])
     \<and> dispatched (ticks (before @ after) c) = dispatched c @ [(''sessionexpired'', True)]"
proof -
  let ?b = "ticks before c"
  have "\<forall>t\<in>set before. isPast (result_at c whn t) = this_isPast c"
    using assms(2,3) by simp
  from ticks_steady[OF assms(1) this]
  have b: "dispatched ?b = dispatched c" "this_isPast ?b = False" "priv_end ?b = Some whn"
    and br: "result_at ?b w t = result_at c w t" for w t
    using assms(2) by simp_all
  have main: "dispatched (ticks (before @ xs) c) = dispatched c @ [(''sessionexpired'', True)]"
    if xs: "xs \<noteq> []" "set xs \<subseteq> set after" for xs
  proof -
    from xs(1) obtain now rest where x: "xs = now # rest" by (cases xs) simp_all
    let ?f = "tick now ?b"
    note f = tick_fields[OF b(3), of now]
    have np: "isPast (result_at c whn now) = True"
      using xs(2) assms(4) x by simp
    have fd: "dispatched ?f = dispatched c @ [(''sessionexpired'', True)]"
      using f(7) by (simp add: b br np)
    have fp: "this_isPast ?f = True" using f(6) by (simp add: br np)
    have fe: "priv_end ?f = Some whn" by (rule f)
    have fr: "result_at ?f w t = result_at c w t" for w t
      by (simp add: result_at_tick[OF b(3)] br)
    have "\<forall>t\<in>set rest. isPast (result_at ?f whn t) = this_isPast ?f"
      using xs(2) assms(4) x by (auto simp add: fr fp)
    from ticks_steady[OF fe this] have "dispatched (ticks rest ?f) = dispatched ?f" by simp
    then show ?thesis
      by (simp add: ticks_append x fd)
  qed
  have k: "0 < k \<Longrightarrow> dispatched (ticks (before @ take k after) c)
            = dispatched c @ [(''sessionexpired'', True)]" for k
  proof -
    assume "0 < k"
    with assms(5) have "take k after \<noteq> []" by simp
    moreover have "set (take k after) \<subseteq> set after" by (rule set_take_subset)
    ultimately show ?thesis by (rule main)
  qed
  have a: "dispatched (ticks (before @ after) c) = dispatched c @ [(''sessionexpired'', True)]"
    using main[OF assms(5)] by simp
  show ?thesis using b(1) k a by blast
qed

text \<open>
  The target is 5000; ticks at 0, 4000 and 5000 are not past, ticks at 6000 and 9000 are.
\<close>

theorem sessionexpired_once_witness:
  "priv_end (new_component\<lparr>priv_end := Some (Num 5000)\<rparr>) = Some (Num 5000)
   \<and> this_isPast (new_component\<lparr>priv_end := Some (Num 5000)\<rparr>) = False
   \<and> isPast (result_at (new_component\<lparr>priv_end := Some (Num 5000)\<rparr>) (Num 5000) 0) = False
   \<and> isPast (result_at (new_component\<lparr>priv_end := Some (Num 5000)\<rparr>) (Num 5000) 4000) = False
   \<and> isPast (result_at (new_component\<lparr>priv_end := Some (Num 5000)\<rparr>) (Num 5000) 5000) = False
   \<and> isPast (result_at (new_component\<lparr>priv_end := Some (Num 5000)\<rparr>) (Num 5000) 6000) = True
   \<and> isPast (result_at (new_component\<lparr>priv_end := Some (Num 5000)\<rparr>) (Num 5000) 9000) = True
   \<and> dispatched (ticks ([0, 4000, 5000] @ [6000, 9000])
         (new_component\<lparr>priv_end := Some (Num 5000)\<rparr>))
       = [(''sessionexpired'', True)]"
proof -
  let ?c = "new_component\<lparr>priv_end := Some (Num 5000)\<rparr>"
  have e: "priv_end ?c = Some (Num 5000)" by simp
  have p: "this_isPast ?c = False" by (simp add: new_component_def)
  have b: "\<forall>t\<in>set [0, 4000, 5000]. isPast (result_at ?c (Num 5000) t) = False"
    by (simp add: result_at_def gdd_isPast)
  have a: "\<forall>t\<in>set [6000, 9000]. isPast (result_at ?c (Num 5000) t) = True"
    by (simp add: result_at_def gdd_isPast)
  have n: "[6000, 9000] \<noteq> ([] :: int list)" by simp
  have d: "dispatched ?c = []" by (simp add: new_component_def)
  from sessionexpired_once[OF e p b a n]
  have "dispatched (ticks ([0, 4000, 5000] @ [6000, 9000]) ?c)
      = dispatched ?c @ [(''sessionexpired'', True)]"
    by blast
  then have r: "dispatched (ticks ([0, 4000, 5000] @ [6000, 9000]) ?c)
      = [(''sessionexpired'', True)]"
    unfolding d by simp
  have b': "isPast (result_at ?c (Num 5000) 0) = False"
    "isPast (result_at ?c (Num 5000) 4000) = False"
    "isPast (result_at ?c (Num 5000) 5000) = False"
    using b by simp_all
  have a': "isPast (result_at ?c (Num 5000) 6000) = True"
    "isPast (result_at ?c (Num 5000) 9000) = True"
    using a by simp_all
  show ?thesis by (intro conjI e p b' a' r)
qed

text \<open>
  Claim C10. When the result of a tick is valid and its difference is at least 28800
  seconds, \<^verbatim>\<open>updateStrings\<close> returns without \<^verbatim>\<open>setTimeout\<close>: the pending
  timers are those there were without the one it cleared, no timer identifier is used up,
  and \<^verbatim>\<open>_timeout\<close> keeps the identifier of the cleared timer. The direction plays no
  part: \<open>isPast\<close> does not occur among the hypotheses.
\<close>

theorem no_reschedule_from_8_hours:
  assumes "priv_end c = Some whn"
    and "invalid (result_at c whn now) = False"
    and "28800 \<le> diff (result_at c whn now)"
  shows "\<exists>c'. updateStrings now c = Inr c'
     \<and> timers c' = timers (clearTimeout (priv_timeout c) c)
     \<and> set (timers c') \<subseteq> set (timers c)
     \<and> (\<forall>i ms. priv_timeout c = Some i \<longrightarrow> (i, ms) \<notin> set (timers c'))
     \<and> timer_count c' = timer_count c
     \<and> priv_timeout c' = priv_timeout c"
proof -
  have n: "\<not> (invalid (result_at c whn now) = False \<and> diff (result_at c whn now) < 28800)"
    using assms(3) by simp
  have s: "set (timers (clearTimeout (priv_timeout c) c)) \<subseteq> set (timers c)"
    by (auto simp add: clearTimeout_def split: option.splits)
  have g: "priv_timeout c = Some i \<Longrightarrow> (i, ms) \<notin> set (timers (clearTimeout (priv_timeout c) c))"
    for i ms
    by (simp add: clearTimeout_def)
  show ?thesis
    unfolding updateStrings_frozen[OF assms(1) n]
    using s g by (simp add: clearTimeout_fields emitEvent_def)
qed

text \<open>
  A target nine hours ahead: the result is valid and not past, and the tick leaves no
  timer pending.
\<close>

theorem no_reschedule_from_8_hours_witness:
  "priv_end (new_component\<lparr>priv_end := Some (Num 32400000), priv_timeout := Some 0,
        timers := [(0, 1000)], timer_count := 1\<rparr>) = Some (Num 32400000)
   \<and> invalid (result_at (new_component\<lparr>priv_end := Some (Num 32400000),
        priv_timeout := Some 0, timers := [(0, 1000)], timer_count := 1\<rparr>) (Num 32400000) 0) = False
   \<and> isPast (result_at (new_component\<lparr>priv_end := Some (Num 32400000),
        priv_timeout := Some 0, timers := [(0, 1000)], timer_count := 1\<rparr>) (Num 32400000) 0) = False
   \<and> 28800 \<le> diff (result_at (new_component\<lparr>priv_end := Some (Num 32400000),
        priv_timeout := Some 0, timers := [(0, 1000)], timer_count := 1\<rparr>) (Num 32400000) 0)
   \<and> (\<exists>c'. updateStrings 0 (new_component\<lparr>priv_end := Some (Num 32400000),
        priv_timeout := Some 0, timers := [(0, 1000)], timer_count := 1\<rparr>) = Inr c'
        \<and> timers c' = [])"
proof -
  let ?c = "new_component\<lparr>priv_end := Some (Num 32400000), priv_timeout := Some 0,
        timers := [(0, 1000)], timer_count := 1\<rparr>"
  have e: "priv_end ?c = Some (Num 32400000)" by simp
  have i: "invalid (result_at ?c (Num 32400000) 0) = False"
    by (simp add: result_at_def gdd_invalid)
  have p: "isPast (result_at ?c (Num 32400000) 0) = False"
    by (simp add: result_at_def gdd_isPast)
  have d: "28800 \<le> diff (result_at ?c (Num 32400000) 0)"
    by (simp add: result_at_def gdd_diff)
  have t: "timers (clearTimeout (priv_timeout ?c) ?c) = []"
    by (simp add: clearTimeout_def)
  from no_reschedule_from_8_hours[OF e i d] show ?thesis
    using e i p d unfolding t by blast
qed

text \<open>
  Claim C5 asks that \<^verbatim>\<open>setEnd\<close> with a date-time string later than now makes that
  instant the target. The code at such an input: the string names the first instant of
  2030 (1893456000000 ms) and the clock reads 1000. When \<^verbatim>\<open>new Date()\<close> and
  \<^verbatim>\<open>Date.now()\<close> read the same millisecond the target becomes 1000, the time of
  the call; when the clock has moved on to 1001 in between, a warning is written and the
  target stays what it was. \<^verbatim>\<open>setSessionEnd\<close> with the string as event detail
  does the same.
\<close>

theorem setEnd_ignores_instant:
  "setEnd (JString ''2030-01-01T00:00:00Z'') 1000 1000 (new_component\<lparr>priv_end := Some (Num 500000)\<rparr>)
     = Inr (new_component\<lparr>priv_end := Some (Num 1000)\<rparr>)
   \<and> setEnd (JString ''2030-01-01T00:00:00Z'') 1000 1001 (new_component\<lparr>priv_end := Some (Num 500000)\<rparr>)
     = Inr (new_component\<lparr>priv_end := Some (Num 500000),
          console := [Warn ''<session-timeout> expects new end date-time to be later than now'']\<rparr>)
   \<and> setSessionEnd \<lparr>ev_target_value = None, ev_detail = JString ''2030-01-01T00:00:00Z''\<rparr>
        1000 1000 (new_component\<lparr>priv_end := Some (Num 500000)\<rparr>)
     = Inr (new_component\<lparr>priv_end := Some (Num 1000)\<rparr>)"
proof -
  have "\<not> is_space (CHR ''2'')" by (simp add: is_space_def)
  then have t: "trim ''2030-01-01T00:00:00Z'' \<noteq> []"
    by (intro trim_nonblank) simp_all
  show ?thesis
    unfolding setSessionEnd_def Let_def
    by (simp add: setEnd_string[OF t] new_component_def)
qed

text \<open>
  Claim C8 asks that with a configured keepalive of at most 30 seconds no keepalive
  signal is ever emitted. The code at such a configuration: the element has the attributes
  \<open>duration="300"\<close> and \<open>keepalive="20"\<close> and is connected while the clock reads
  1700000000000. \<^verbatim>\<open>connectedCallback\<close> stores \<^verbatim>\<open>sanitiseDuation\<close> of the
  attribute, 20000, as the keepalive; that is above \<^verbatim>\<open>minKeepalive\<close>, so
  \<^verbatim>\<open>setListeners\<close> calls \<^verbatim>\<open>updateKeepAlive\<close>, and the first of its calls
  dispatches the \<open>keepalive\<close> event.
\<close>

theorem connectedCallback_keepalive_attribute:
  "connectedCallback
     \<lparr>attr_duration = Some ''300'', attr_when = None, attr_keepalive = Some ''20''\<rparr>
     \<lparr>when_created = 1700000000000, when_now = 1700000000000,
      reset_created = 1700000000000, reset_now = 1700000000000,
      listener_clock = (\<lambda>i. 1700000000000)\<rparr>
     new_component
   = Inr (new_component
       \<lparr>priv_duration := 300000, priv_end := Some (Num 1700000300000),
        priv_timeout := Some 0, priv_lastInteraction := 1700000000000,
        priv_lastKeep := 1700000000000, priv_keepalive := 20000,
        dispatched := [(''keepalive'', True)], timers := [(0, 1000)], timer_count := 1,
        listeners := [(''setsessionend'', L_setSessionEnd), (''resetsession'', L_resetEnd)]\<rparr>)"
proof -
  have p: "parseInt10 ''300'' = Num 300" "parseInt10 ''20'' = Num 20"
    by (simp_all add: parseInt10_def is_space_def is_digit_def digit_value_def Let_def)
  have s: "sanitiseDuation (JString ''300'') = Inr 300000"
    "sanitiseDuation (JString ''20'') = Inr 20000"
    by (simp_all add: sanitiseDuation_def p)
  show ?thesis
    by (simp add: connectedCallback_def s resetEnd_def new_Date_def setEndInner_def
        setListeners_def addEventListener_def minKeepalive_def watchableEvents_def
        updateKeepAlive_def emitEvent_def setTimeout_def new_component_def Let_def)
qed

text \<open>
  Claim C9, as the code has it. Take a call of \<^verbatim>\<open>updateKeepAlive\<close> that passes the
  throttle while a custom handler is stored, and in which the call
  \<^verbatim>\<open>this.keepaliveCallback()\<close> raises an error. The call of \<^verbatim>\<open>updateKeepAlive\<close>
  stores \<^verbatim>\<open>null\<close> for the handler and dispatches the \<open>keepalive\<close> event with
  detail \<open>True\<close>. Through every later run of operations of the component in which the
  setter \<^verbatim>\<open>keepaliveCallback\<close> is not given a function, the handler stays
  \<^verbatim>\<open>null\<close> and no handler is called, and every call of \<^verbatim>\<open>updateKeepAlive\<close>
  after such a run that passes the throttle dispatches the \<open>keepalive\<close> event.
\<close>

theorem keepalive_callback_failure:
  assumes "priv_keepaliveCallback c = Some h"
    and "now - priv_lastKeep c > priv_keepalive c * 1000"
    and "fst (call_value
           (get_keepaliveCallback (c\<lparr>priv_lastInteraction := now, priv_lastKeep := now\<rparr>))
           (c\<lparr>priv_lastInteraction := now, priv_lastKeep := now\<rparr>)) = Some e"
  shows "priv_keepaliveCallback (updateKeepAlive now c) = None
     \<and> dispatched (updateKeepAlive now c) = dispatched c @ [(''keepalive'', True)]
     \<and> (\<forall>ops. list_all (\<lambda>x. \<not> assigns_handler x) ops \<longrightarrow>
           priv_keepaliveCallback (run_ops ops (updateKeepAlive now c)) = None
           \<and> callback_calls (run_ops ops (updateKeepAlive now c))
               = callback_calls (updateKeepAlive now c))
     \<and> (\<forall>ops t.
           list_all (\<lambda>x. \<not> assigns_handler x) ops
           \<and> t - priv_lastKeep (run_ops ops (updateKeepAlive now c))
               > priv_keepalive (run_ops ops (updateKeepAlive now c)) * 1000 \<longrightarrow>
           dispatched (updateKeepAlive t (run_ops ops (updateKeepAlive now c)))
             = dispatched (run_ops ops (updateKeepAlive now c)) @ [(''keepalive'', True)])"
proof -
  let ?u = "updateKeepAlive now c"
  note u = updateKeepAlive_raised[OF assms]
  have n: "priv_keepaliveCallback ?u = None" by (rule u)
  have d: "dispatched ?u = dispatched c @ [(''keepalive'', True)]" by (rule u)
  have later: "priv_keepaliveCallback (run_ops ops ?u) = None
      \<and> callback_calls (run_ops ops ?u) = callback_calls ?u"
    if "list_all (\<lambda>x. \<not> assigns_handler x) ops" for ops
    using n that by (rule run_ops_keeps)
  have emit: "dispatched (updateKeepAlive t (run_ops ops ?u))
      = dispatched (run_ops ops ?u) @ [(''keepalive'', True)]"
    if a: "list_all (\<lambda>x. \<not> assigns_handler x) ops"
      and b: "t - priv_lastKeep (run_ops ops ?u) > priv_keepalive (run_ops ops ?u) * 1000"
    for ops t
    using updateKeepAlive_default[OF _ b] later[OF a] by simp
  show ?thesis
    using n d later emit by blast
qed

text \<open>
  A keepalive of 90 seconds and a stored handler: in the interaction at 100000 the call
  raises a \<^verbatim>\<open>TypeError\<close>, the handler is cleared and the event dispatched; the handler
  is still \<^verbatim>\<open>null\<close> after two more interactions, a tick and the setter given
  \<^verbatim>\<open>null\<close>.
\<close>

theorem keepalive_callback_failure_witness:
  "priv_keepaliveCallback (new_component\<lparr>priv_keepalive := 90,
       priv_keepaliveCallback := Some (Callback True)\<rparr>) = Some (Callback True)
   \<and> 100000 - priv_lastKeep (new_component\<lparr>priv_keepalive := 90,
         priv_keepaliveCallback := Some (Callback True)\<rparr>)
       > priv_keepalive (new_component\<lparr>priv_keepalive := 90,
           priv_keepaliveCallback := Some (Callback True)\<rparr>) * 1000
   \<and> fst (call_value
          (get_keepaliveCallback (new_component\<lparr>priv_keepalive := 90,
             priv_keepaliveCallback := Some (Callback True),
             priv_lastInteraction := 100000, priv_lastKeep := 100000\<rparr>))
          (new_component\<lparr>priv_keepalive := 90,
             priv_keepaliveCallback := Some (Callback True),
             priv_lastInteraction := 100000, priv_lastKeep := 100000\<rparr>)) = Some TypeError
   \<and> priv_keepaliveCallback (updateKeepAlive 100000 (new_component\<lparr>priv_keepalive := 90,
         priv_keepaliveCallback := Some (Callback True)\<rparr>)) = None
   \<and> dispatched (updateKeepAlive 100000 (new_component\<lparr>priv_keepalive := 90,
         priv_keepaliveCallback := Some (Callback True)\<rparr>)) = [(''keepalive'', True)]
   \<and> list_all (\<lambda>x. \<not> assigns_handler x)
         [Interact 150000, Tick 160000, SetKeepaliveCallback JNull, Interact 200000]
   \<and> priv_keepaliveCallback
         (run_ops [Interact 150000, Tick 160000, SetKeepaliveCallback JNull, Interact 200000]
           (updateKeepAlive 100000 (new_component\<lparr>priv_keepalive := 90,
             priv_keepaliveCallback := Some (Callback True)\<rparr>))) = None"
proof -
  let ?c = "new_component\<lparr>priv_keepalive := 90, priv_keepaliveCallback := Some (Callback True)\<rparr>"
  let ?ops = "[Interact 150000, Tick 160000, SetKeepaliveCallback JNull, Interact 200000]"
  have a: "priv_keepaliveCallback ?c = Some (Callback True)" by simp
  have g: "100000 - priv_lastKeep ?c > priv_keepalive ?c * 1000"
    by (simp add: new_component_def)
  have r: "fst (call_value
      (get_keepaliveCallback (?c\<lparr>priv_lastInteraction := 100000, priv_lastKeep := 100000\<rparr>))
      (?c\<lparr>priv_lastInteraction := 100000, priv_lastKeep := 100000\<rparr>)) = Some TypeError"
    by (simp add: call_value_def get_keepaliveCallback_def)
  have d: "dispatched ?c = []" by (simp add: new_component_def)
  have o: "list_all (\<lambda>x. \<not> assigns_handler x) ?ops" by simp
  note t = keepalive_callback_failure[OF a g r]
  from t have n: "priv_keepaliveCallback (updateKeepAlive 100000 ?c) = None"
    by (rule conjunct1)
  from t have "dispatched (updateKeepAlive 100000 ?c) = dispatched ?c @ [(''keepalive'', True)]"
    by blast
  then have e: "dispatched (updateKeepAlive 100000 ?c) = [(''keepalive'', True)]"
    unfolding d by simp
  from t o have l: "priv_keepaliveCallback (run_ops ?ops (updateKeepAlive 100000 ?c)) = None"
    by blast
  show ?thesis by (intro conjI a g r n e o l)
qed

text \<open>
  Claim C9, as stated, fails: the handler is not disabled for the rest of the lifetime.
  After the call that clears a handler that raises, the setter given a function stores
  that function.
\<close>

theorem keepalive_callback_counterexample:
  "priv_keepaliveCallback (new_component\<lparr>priv_keepalive := 90,
       priv_keepaliveCallback := Some (Callback True)\<rparr>) = Some (Callback True)
   \<and> raises (Callback True)
   \<and> 100000 - priv_lastKeep (new_component\<lparr>priv_keepalive := 90,
         priv_keepaliveCallback := Some (Callback True)\<rparr>)
       > priv_keepalive (new_component\<lparr>priv_keepalive := 90,
           priv_keepaliveCallback := Some (Callback True)\<rparr>) * 1000
   \<and> priv_keepaliveCallback (updateKeepAlive 100000 (new_component\<lparr>priv_keepalive := 90,
         priv_keepaliveCallback := Some (Callback True)\<rparr>)) = None
   \<and> priv_keepaliveCallback
         (run_ops [SetKeepaliveCallback (JFunction (Callback False))]
           (updateKeepAlive 100000 (new_component\<lparr>priv_keepalive := 90,
             priv_keepaliveCallback := Some (Callback True)\<rparr>))) \<noteq> None"
  by (simp add: updateKeepAlive_def Let_def emitEvent_def call_keepaliveCallback
      set_keepaliveCallback_def new_component_def)

end
